theory Spec2Isabelle
  imports Complex_Main "HOL-Library.Word" "HOL-Library.Monad_Syntax"
begin

unbundle bit_operations_syntax

section \<open>Machine data\<close>

text \<open>
  The embedding follows \<^verbatim>\<open>src/drive/driver.cc\<close>.  Fixed-width integers are words.
  A C \<^verbatim>\<open>float\<close> or \<^verbatim>\<open>double\<close> is modelled by the real number it denotes; there is no
  infinity and no NaN.  Arithmetic rounds as IEEE-754 arithmetic does (to nearest, ties to
  even): an operation the code evaluates in \<^verbatim>\<open>float\<close> gives \<open>float_rnd\<close> of the exact
  result, one it evaluates in \<^verbatim>\<open>double\<close> (an operand is a \<^verbatim>\<open>double\<close> literal) gives
  \<open>double_rnd\<close> of it, and storing a \<^verbatim>\<open>double\<close> in a \<^verbatim>\<open>float\<close> rounds once more.  The
  decimal constants at the head of the file (\<open>CEILHOME_X\<close> and the others) are taken as
  written.  Where the code copies the four bytes of a \<^verbatim>\<open>float\<close> object with \<^verbatim>\<open>memcpy\<close>,
  the bit pattern of the value is supplied by a parameter \<open>fb :: real \<Rightarrow> 32 word\<close>
  (IEEE-754 binary32 on the target), and the byte order is little endian, as the recording
  format documents.  Member names lose their trailing underscore (\<^verbatim>\<open>gyro_bias_\<close> is
  \<open>gyro_bias\<close>).
\<close>

type_synonym uint8_t = "8 word"
type_synonym int8_t = "8 word"
type_synonym int16_t = "16 word"
type_synonym uint16_t = "16 word"
type_synonym uint32_t = "32 word"

text \<open>
  Rounding.  \<open>rne y\<close> is the integer nearest to \<open>y\<close>, the even one of the two when \<open>y\<close> lies
  half way.  \<open>round_to p emin x\<close> is \<open>x\<close> rounded to \<open>p\<close> significant bits, the last of them
  of weight \<open>2 powi emin\<close> at least, so that the subnormal numbers are covered; the
  exponent is not bounded above, the model having no infinity.  binary32 has 24 bits and
  the smallest weight \<open>2 powi - 149\<close>, binary64 has 53 bits and \<open>2 powi - 1074\<close>.
\<close>

definition rne :: "real \<Rightarrow> int" where
  "rne y = (let f = \<lfloor>y\<rfloor>; r = y - real_of_int f
            in if r < 1 / 2 then f else if 1 / 2 < r then f + 1
               else if even f then f else f + 1)"

definition ulp_exp :: "nat \<Rightarrow> int \<Rightarrow> real \<Rightarrow> int" where
  "ulp_exp p emin x = max (\<lfloor>log 2 \<bar>x\<bar>\<rfloor> - int p + 1) emin"

definition round_to :: "nat \<Rightarrow> int \<Rightarrow> real \<Rightarrow> real" where
  "round_to p emin x =
     (if x = 0 then 0
      else real_of_int (rne (x / 2 powi ulp_exp p emin x)) * 2 powi ulp_exp p emin x)"

definition float_rnd :: "real \<Rightarrow> real" where
  "float_rnd = round_to 24 (- 149)"

definition double_rnd :: "real \<Rightarrow> real" where
  "double_rnd = round_to 53 (- 1074)"

text \<open>\<^verbatim>\<open>Eigen::Vector3f\<close> and \<^verbatim>\<open>float[3]\<close>: three components, read and written by index.
  The vector operations work on \<^verbatim>\<open>float\<close> components and round each of them.\<close>

type_synonym vec3 = "real \<times> real \<times> real"

fun v3 :: "vec3 \<Rightarrow> nat \<Rightarrow> real" where
  "v3 (x, y, z) i = (if i = 0 then x else if i = 1 then y else z)"

fun v3_set :: "vec3 \<Rightarrow> nat \<Rightarrow> real \<Rightarrow> vec3" where
  "v3_set (x, y, z) i a = (if i = 0 then (a, y, z) else if i = 1 then (x, a, z) else (x, y, a))"

fun v3_scale :: "real \<Rightarrow> vec3 \<Rightarrow> vec3" where
  "v3_scale k (x, y, z) = (float_rnd (k * x), float_rnd (k * y), float_rnd (k * z))"

fun v3_add :: "vec3 \<Rightarrow> vec3 \<Rightarrow> vec3" where
  "v3_add (x, y, z) (x', y', z') = (float_rnd (x + x'), float_rnd (y + y'), float_rnd (z + z'))"

fun v3_sub :: "vec3 \<Rightarrow> vec3 \<Rightarrow> vec3" where
  "v3_sub (x, y, z) (x', y', z') = (float_rnd (x - x'), float_rnd (y - y'), float_rnd (z - z'))"

text \<open>Little-endian object representations, as \<^verbatim>\<open>memcpy(dst, &x, n)\<close> reads them.\<close>

definition le16 :: "uint16_t \<Rightarrow> uint8_t list" where
  "le16 w = [ucast w, ucast (drop_bit 8 w)]"

definition le32 :: "uint32_t \<Rightarrow> uint8_t list" where
  "le32 w = [ucast w, ucast (drop_bit 8 w), ucast (drop_bit 16 w), ucast (drop_bit 24 w)]"

definition ascii :: "string \<Rightarrow> uint8_t list" where
  "ascii s = map of_char s"

text \<open>
  \<^verbatim>\<open>memcpy(buf + off, src, length src)\<close> on a buffer of known size.  A copy that would
  run past the end of the buffer is undefined behaviour in C; the model returns \<open>None\<close>.
\<close>

definition memcpy :: "uint8_t list \<Rightarrow> nat \<Rightarrow> uint8_t list \<Rightarrow> uint8_t list option" where
  "memcpy buf off src =
     (if off + length src \<le> length buf
      then Some (take off buf @ src @ drop (off + length src) buf)
      else None)"

section \<open>CarState\<close>

definition CEILHOME_X :: real where "CEILHOME_X = - 3.03"
definition CEILHOME_Y :: real where "CEILHOME_Y = 0.73"
definition CEILHOME_THETA :: real where "CEILHOME_THETA = 0"
definition CEIL_HEIGHT :: real where "CEIL_HEIGHT = 8.25 * 0.3048"
definition CEIL_X_GRID :: real where "CEIL_X_GRID = 0.3048 * 10 / CEIL_HEIGHT"
definition CEIL_Y_GRID :: real where "CEIL_Y_GRID = 0.3048 * 12 / CEIL_HEIGHT"

record CarState =
  accel :: vec3
  gyro :: vec3
  throttle :: int8_t
  steering :: int8_t
  wheel_dist :: real
  wheel_v :: real
  ceiltrack_pos :: vec3

definition SetHome :: "CarState \<Rightarrow> CarState" where
  "SetHome s =
     (let s = s\<lparr>ceiltrack_pos := v3_set (ceiltrack_pos s) 0 CEILHOME_X\<rparr>;
          s = s\<lparr>ceiltrack_pos := v3_set (ceiltrack_pos s) 1 CEILHOME_Y\<rparr>;
          s = s\<lparr>ceiltrack_pos := v3_set (ceiltrack_pos s) 2 CEILHOME_THETA\<rparr>
      in s)"

text \<open>The constructor: every field zero, then \<^verbatim>\<open>SetHome()\<close>.  The array
  \<^verbatim>\<open>ceiltrack_pos\<close> is not initialised before that call; \<open>pos0\<close> is what it held.\<close>

definition CarState_init :: "vec3 \<Rightarrow> CarState" where
  "CarState_init pos0 =
     SetHome \<lparr>accel = (0, 0, 0), gyro = (0, 0, 0), throttle = 0, steering = 0,
              wheel_dist = 0, wheel_v = 0, ceiltrack_pos = pos0\<rparr>"

definition SerializedSize :: int where
  "SerializedSize = 8 + 4 * 3 * 2 + 2 + 2 * 4"

text \<open>
  \<^verbatim>\<open>Serialize(buf, bufsiz)\<close>: \<open>buf\<close> is the destination region, \<open>bufsiz\<close> its length.
  The result is the region after the writes and the returned byte count; \<open>None\<close> is the
  failed \<^verbatim>\<open>assert(bufsiz >= len)\<close>.
\<close>

definition Serialize :: "(real \<Rightarrow> uint32_t) \<Rightarrow> CarState \<Rightarrow> uint8_t list \<Rightarrow> (uint8_t list \<times> int) option" where
  "Serialize fb s buf =
     (let len = SerializedSize in
      if \<not> (int (length buf) \<ge> len) then None
      else do {
        b \<leftarrow> memcpy buf 0 (ascii ''CSt1'');
        b \<leftarrow> memcpy b 4 (le32 (word_of_int len));
        b \<leftarrow> memcpy b (8 + 0) [throttle s];
        b \<leftarrow> memcpy b (8 + 1) [steering s];
        b \<leftarrow> memcpy b (8 + 2) (le32 (fb (v3 (accel s) 0)));
        b \<leftarrow> memcpy b (8 + 2 + 4) (le32 (fb (v3 (accel s) 1)));
        b \<leftarrow> memcpy b (8 + 2 + 8) (le32 (fb (v3 (accel s) 2)));
        b \<leftarrow> memcpy b (8 + 14) (le32 (fb (v3 (gyro s) 0)));
        b \<leftarrow> memcpy b (8 + 14 + 4) (le32 (fb (v3 (gyro s) 1)));
        b \<leftarrow> memcpy b (8 + 14 + 8) (le32 (fb (v3 (gyro s) 2)));
        b \<leftarrow> memcpy b (8 + 26) (le32 (fb (wheel_dist s)));
        b \<leftarrow> memcpy b (8 + 30) (le32 (fb (wheel_v s)));
        Some (b, len)
      })"

section \<open>The driver and its collaborators\<close>

record timeval =
  tv_sec :: int
  tv_usec :: int

text \<open>
  What the input device delivers: \<^verbatim>\<open>js_->ReadInput(this)\<close> calls the receiver's callbacks
  (\<^verbatim>\<open>OnDPadPress\<close>, \<^verbatim>\<open>OnButtonPress\<close>, \<^verbatim>\<open>OnButtonRelease\<close>, \<^verbatim>\<open>OnAxisMove\<close>), one per event.
\<close>

datatype js_event =
  DPadPress char
| ButtonPress char
| ButtonRelease char
| AxisMove int int16_t

text \<open>
  The collaborators whose code is not part of \<^verbatim>\<open>driver.cc\<close> are parameters of the model:
  the controller (state \<open>'c\<close>), the configuration (the struct read as an array of
  \<^verbatim>\<open>int16_t\<close>, as \<^verbatim>\<open>OnDPadPress\<close> reads it), the ceiling tracker, the obstacle
  detector, the file system and the clock.  The display, \<^verbatim>\<open>config_.Save()\<close> and the
  diagnostics on \<^verbatim>\<open>stderr\<close> change no state of the driver and are left out.
\<close>

record 'c env =
  float_bits :: "real \<Rightarrow> uint32_t"
  open_file :: "string \<Rightarrow> int"
  fileno_stdout :: int
  strftime_now :: string
  N_CONFIGITEMS :: int
  config_Load :: "int16_t list \<Rightarrow> bool \<times> int16_t list"
  config_SerializedSize :: "int16_t list \<Rightarrow> int"
  config_Serialize :: "int16_t list \<Rightarrow> int \<Rightarrow> uint8_t list"
  ceil_Update :: "uint8_t list \<Rightarrow> int \<Rightarrow> real \<Rightarrow> real \<Rightarrow> vec3 \<Rightarrow> int \<Rightarrow> bool \<Rightarrow> vec3"
  od_Update :: "uint8_t list \<Rightarrow> int \<Rightarrow> int \<Rightarrow> int list \<times> int list"
  ctl_UpdateLocation :: "int16_t list \<Rightarrow> vec3 \<Rightarrow> 'c \<Rightarrow> 'c"
  ctl_Plan :: "int16_t list \<Rightarrow> int list \<Rightarrow> int list \<Rightarrow> 'c \<Rightarrow> 'c"
  ctl_UpdateState :: "int16_t list \<Rightarrow> vec3 \<Rightarrow> vec3 \<Rightarrow> real \<Rightarrow> real \<Rightarrow> 'c \<Rightarrow> 'c"
  ctl_GetControl :: "int16_t list \<Rightarrow> real \<Rightarrow> real \<Rightarrow> real \<Rightarrow> real \<Rightarrow> real \<Rightarrow> bool \<Rightarrow> int \<Rightarrow> 'c
                       \<Rightarrow> bool \<times> real \<times> real \<times> 'c"
  ctl_ResetState :: "'c \<Rightarrow> 'c"
  ctl_SerializedSize :: "'c \<Rightarrow> int"
  ctl_Serialize :: "'c \<Rightarrow> int \<Rightarrow> uint8_t list"

text \<open>
  \<open>ctl_GetControl\<close> takes the commands \<^verbatim>\<open>u_a\<close>, \<^verbatim>\<open>u_s\<close> that the caller passes by pointer
  and returns the flag together with what the two variables hold afterwards.
  \<open>ctl_Serialize c bufsiz\<close> and \<open>config_Serialize cfg bufsiz\<close> are the bytes the calls
  write at the start of the region they are given; the first returns their number.

  The state: the members of \<^verbatim>\<open>Driver\<close>, the global \<^verbatim>\<open>carstate_\<close>, and the calls made on
  the outside, in order: \<^verbatim>\<open>flush_thread_->AddEntry(fd, buf, len)\<close>, \<^verbatim>\<open>write(fd, buf, siz)\<close>
  and \<^verbatim>\<open>car->SetControls(leds, u_a, u_s)\<close>.  The members are declared in
  \<^verbatim>\<open>drive/driver.h\<close>; the counters are taken as unbounded integers and the joystick axes
  as \<^verbatim>\<open>int16_t\<close>, the type of the value \<^verbatim>\<open>OnAxisMove\<close> stores.  \<open>js_attached\<close> says that
  \<^verbatim>\<open>js_\<close> is not null, \<open>done_flag\<close> is \<^verbatim>\<open>done_\<close>.
\<close>

record 'c Driver =
  carstate :: CarState
  controller :: 'c
  config :: "int16_t list"
  gyro_bias :: vec3
  gyro_last :: vec3
  output_fd :: int
  frame :: int
  frameskip :: int
  autodrive :: bool
  last_t :: timeval
  js_throttle :: int16_t
  js_steering :: int16_t
  config_item :: int
  x_down :: bool
  y_down :: bool
  done_flag :: bool
  js_attached :: bool
  flush_entries :: "(int \<times> uint8_t list option \<times> int) list"
  fd_writes :: "(int \<times> uint8_t list \<times> int) list"
  car_controls :: "(uint8_t \<times> real \<times> real) list"

text \<open>The constructor.  \<^verbatim>\<open>gyro_last_\<close> is not initialised by it; \<open>g0\<close> is what it holds.\<close>

definition Driver_init :: "'c env \<Rightarrow> bool \<Rightarrow> vec3 \<Rightarrow> vec3 \<Rightarrow> 'c \<Rightarrow> int16_t list \<Rightarrow> 'c Driver" where
  "Driver_init E js g0 pos0 c0 cfg0 =
     \<lparr>carstate = CarState_init pos0, controller = c0, config = snd (config_Load E cfg0),
      gyro_bias = (0, 0, 0), gyro_last = g0, output_fd = - 1, frame = 0, frameskip = 0,
      autodrive = False, last_t = \<lparr>tv_sec = 0, tv_usec = 0\<rparr>,
      js_throttle = 0, js_steering = 0, config_item = 0, x_down = False, y_down = False,
      done_flag = False, js_attached = js, flush_entries = [], fd_writes = [],
      car_controls = []\<rparr>"

subsection \<open>Recording\<close>

definition open_destination :: "'c env \<Rightarrow> string \<Rightarrow> int" where
  "open_destination E fname =
     (if fname = ''-'' then fileno_stdout E else open_file E fname)"

definition StartRecording :: "'c env \<Rightarrow> string \<Rightarrow> int \<Rightarrow> 'c Driver \<Rightarrow> bool \<times> 'c Driver" where
  "StartRecording E fname fskip d =
     (let d = d\<lparr>frameskip := fskip\<rparr>;
          d = d\<lparr>frame := 0\<rparr>;
          d = d\<lparr>output_fd := open_destination E fname\<rparr>
      in if output_fd d = - 1 then (False, d)
         else let siz = config_SerializedSize E (config d);
                  hdrbuf = config_Serialize E (config d) siz;
                  d = d\<lparr>fd_writes := fd_writes d @ [(output_fd d, hdrbuf, siz)]\<rparr>
              in (True, d))"

definition IsRecording :: "'c Driver \<Rightarrow> bool" where
  "IsRecording d = (output_fd d \<noteq> - 1)"

definition StopRecording :: "'c Driver \<Rightarrow> 'c Driver" where
  "StopRecording d =
     (if output_fd d = - 1 then d
      else let d = d\<lparr>flush_entries := flush_entries d @ [(output_fd d, None, - 1)]\<rparr>
           in d\<lparr>output_fd := - 1\<rparr>)"

text \<open>
  \<^verbatim>\<open>QueueRecordingData(t, buf, length)\<close>.  The lengths are \<^verbatim>\<open>uint32_t\<close> and wrap; the frame is
  written into a fresh buffer of \<open>chunklen\<close> bytes (its initial content is modelled as
  zeros).  \<open>None\<close>: a write outside that buffer, or the assertion of \<open>Serialize\<close>.
  The size handed to each \<open>Serialize\<close> is \<^verbatim>\<open>chunklen - ptr\<close>, computed in \<^verbatim>\<open>uint32_t\<close> and
  converted to the \<^verbatim>\<open>int\<close> parameter \<^verbatim>\<open>bufsiz\<close>: it is negative once \<^verbatim>\<open>2^31\<close> bytes or more
  remain, and the assertion then fails.  \<open>Serialize\<close> is given the region of \<open>bufsiz\<close>
  bytes at \<open>ptr\<close>; the controller's \<^verbatim>\<open>Serialize\<close> is taken to have the same signature.
\<close>

definition QueueRecordingData :: "'c env \<Rightarrow> timeval \<Rightarrow> uint8_t list \<Rightarrow> 'c Driver \<Rightarrow> 'c Driver option" where
  "QueueRecordingData E t buf d =
     (let chunklen = (8 + 8 :: uint32_t);
          yuvcklen = (of_nat (length buf) + 8 + 2 :: uint32_t);
          chunklen = chunklen + word_of_int SerializedSize;
          chunklen = chunklen + word_of_int (ctl_SerializedSize E (controller d));
          chunklen = chunklen + yuvcklen;
          chunkbuf = replicate (unat chunklen) (0 :: uint8_t)
      in do {
        b \<leftarrow> memcpy chunkbuf 0 (ascii ''CYCF'');
        b \<leftarrow> memcpy b 4 (le32 chunklen);
        b \<leftarrow> memcpy b 8 (le32 (word_of_int (tv_sec t)));
        b \<leftarrow> memcpy b 12 (le32 (word_of_int (tv_usec t)));
        let ptr = 16;
        let bufsiz = sint (chunklen - of_nat ptr);
        (r, n) \<leftarrow> Serialize (float_bits E) (carstate d) (take (nat bufsiz) (drop ptr b));
        let b = take ptr b @ r @ drop (ptr + nat bufsiz) b;
        let ptr = ptr + nat n;
        let bufsiz = sint (chunklen - of_nat ptr);
        let cbytes = ctl_Serialize E (controller d) bufsiz;
        b \<leftarrow> memcpy b ptr cbytes;
        let ptr = ptr + length cbytes;
        b \<leftarrow> memcpy b ptr (ascii ''Y420'');
        b \<leftarrow> memcpy b (ptr + 4) (le32 yuvcklen);
        let framewidth = (640 :: uint16_t);
        b \<leftarrow> memcpy b (ptr + 8) (le16 framewidth);
        b \<leftarrow> memcpy b (ptr + 10) buf;
        Some (d\<lparr>flush_entries := flush_entries d @ [(output_fd d, Some b, uint chunklen)]\<rparr>)
      })"

subsection \<open>The camera frame\<close>

definition UpdateFromCamera :: "'c env \<Rightarrow> uint8_t list \<Rightarrow> real \<Rightarrow> 'c Driver \<Rightarrow> 'c Driver" where
  "UpdateFromCamera E buf dt d =
     (let pos = ceil_Update E buf 240 CEIL_X_GRID CEIL_Y_GRID (ceiltrack_pos (carstate d)) 2 False;
          d = d\<lparr>carstate := (carstate d)\<lparr>ceiltrack_pos := pos\<rparr>\<rparr>;
          xytheta = (float_rnd (- v3 (ceiltrack_pos (carstate d)) 0 * CEIL_HEIGHT),
                     float_rnd (- v3 (ceiltrack_pos (carstate d)) 1 * CEIL_HEIGHT),
                     - v3 (ceiltrack_pos (carstate d)) 2);
          (pcar, pcone) = od_Update E buf 40 150;
          d = d\<lparr>controller := ctl_UpdateLocation E (config d) xytheta (controller d)\<rparr>;
          d = d\<lparr>controller := ctl_Plan E (config d) pcar pcone (controller d)\<rparr>
      in d)"

text \<open>\<^verbatim>\<open>OnCameraFrame(buf, length)\<close>; \<open>t\<close> is what \<^verbatim>\<open>gettimeofday\<close> returns.  The gap
  \<open>dt\<close> only feeds a warning and \<^verbatim>\<open>UpdateFromCamera\<close>, which does not read it.\<close>

definition OnCameraFrame :: "'c env \<Rightarrow> timeval \<Rightarrow> uint8_t list \<Rightarrow> 'c Driver \<Rightarrow> 'c Driver option" where
  "OnCameraFrame E t buf d =
     (let d = d\<lparr>frame := frame d + 1\<rparr>;
          dt = float_rnd (double_rnd (double_rnd (real_of_int (tv_sec t - tv_sec (last_t d)))
                 + double_rnd (double_rnd (real_of_int (tv_usec t - tv_usec (last_t d)))
                     * double_rnd 0.000001)));
          d = UpdateFromCamera E buf dt d
      in do {
        d \<leftarrow> (if IsRecording d \<and> frame d > frameskip d
              then QueueRecordingData E t buf (d\<lparr>frame := 0\<rparr>)
              else Some d);
        Some (d\<lparr>last_t := t\<rparr>)
      })"

subsection \<open>Input callbacks\<close>

text \<open>
  \<^verbatim>\<open>OnDPadPress\<close>: \<open>value\<close> is the index of the configuration entry the pointer
  \<^verbatim>\<open>((int16_t *)&config_) + config_item_\<close> addresses, taken before the switch.  An index
  outside the configuration is undefined in C; the model then leaves the configuration
  as it is.
\<close>

definition OnDPadPress :: "'c env \<Rightarrow> char \<Rightarrow> 'c Driver \<Rightarrow> 'c Driver" where
  "OnDPadPress E direction d =
     (let value = nat (config_item d);
          cfg = config d
      in if direction = CHR ''U'' then
           (let d = d\<lparr>config_item := config_item d - 1\<rparr>
            in if config_item d < 0 then d\<lparr>config_item := N_CONFIGITEMS E - 1\<rparr> else d)
         else if direction = CHR ''D'' then
           (let d = d\<lparr>config_item := config_item d + 1\<rparr>
            in if config_item d \<ge> N_CONFIGITEMS E then d\<lparr>config_item := 0\<rparr> else d)
         else if direction = CHR ''L'' then
           (if y_down d then d\<lparr>config := cfg[value := cfg ! value - 100]\<rparr>
            else if x_down d then d\<lparr>config := cfg[value := cfg ! value - 10]\<rparr>
            else d\<lparr>config := cfg[value := cfg ! value - 1]\<rparr>)
         else if direction = CHR ''R'' then
           (if y_down d then d\<lparr>config := cfg[value := cfg ! value + 100]\<rparr>
            else if x_down d then d\<lparr>config := cfg[value := cfg ! value + 10]\<rparr>
            else d\<lparr>config := cfg[value := cfg ! value + 1]\<rparr>)
         else d)"

definition OnButtonPress :: "'c env \<Rightarrow> char \<Rightarrow> 'c Driver \<Rightarrow> 'c Driver" where
  "OnButtonPress E button d =
     (if button = CHR ''+'' then
        (if \<not> IsRecording d then snd (StartRecording E (strftime_now E) 0 d) else d)
      else if button = CHR ''-'' then
        (if IsRecording d then StopRecording d else d)
      else if button = CHR ''H'' then
        (let d = d\<lparr>carstate := SetHome (carstate d)\<rparr>;
             d = d\<lparr>gyro_bias := gyro_last d\<rparr>
         in d)
      else if button = CHR ''L'' then
        (if \<not> autodrive d then d\<lparr>autodrive := True\<rparr> else d)
      else if button = CHR ''B'' then
        (let d = d\<lparr>controller := ctl_ResetState E (controller d)\<rparr>
         in d\<lparr>config := snd (config_Load E (config d))\<rparr>)
      else if button = CHR ''A'' then d
      else if button = CHR ''X'' then d\<lparr>x_down := True\<rparr>
      else if button = CHR ''Y'' then d\<lparr>y_down := True\<rparr>
      else d)"

definition OnButtonRelease :: "char \<Rightarrow> 'c Driver \<Rightarrow> 'c Driver" where
  "OnButtonRelease button d =
     (if button = CHR ''L'' then (if autodrive d then d\<lparr>autodrive := False\<rparr> else d)
      else if button = CHR ''X'' then d\<lparr>x_down := False\<rparr>
      else if button = CHR ''Y'' then d\<lparr>y_down := False\<rparr>
      else d)"

definition OnAxisMove :: "int \<Rightarrow> int16_t \<Rightarrow> 'c Driver \<Rightarrow> 'c Driver" where
  "OnAxisMove axis v d =
     (if axis = 1 then d\<lparr>js_throttle := - v\<rparr>
      else if axis = 2 then d\<lparr>js_steering := v\<rparr>
      else d)"

fun deliver :: "'c env \<Rightarrow> js_event \<Rightarrow> 'c Driver \<Rightarrow> 'c Driver" where
  "deliver E (DPadPress c) d = OnDPadPress E c d"
| "deliver E (ButtonPress c) d = OnButtonPress E c d"
| "deliver E (ButtonRelease c) d = OnButtonRelease c d"
| "deliver E (AxisMove a v) d = OnAxisMove a v d"

fun ReadInput :: "'c env \<Rightarrow> js_event list \<Rightarrow> 'c Driver \<Rightarrow> 'c Driver" where
  "ReadInput E [] d = d"
| "ReadInput E (e # es) d = ReadInput E es (deliver E e d)"

subsection \<open>The control frame\<close>

text \<open>What one control tick reads from the outside: the pending input events, the IMU
  (\<^verbatim>\<open>ReadIMU(&carstate_.accel, &gyro)\<close>) and the wheel interface
  (\<^verbatim>\<open>GetWheelMotion(&ds, &v)\<close>: \<open>None\<close> when it returns false).\<close>

record tick =
  js_events :: "js_event list"
  imu_accel :: vec3
  imu_gyro :: vec3
  wheel_motion :: "(real \<times> real) option"

definition fabsf :: "real \<Rightarrow> real" where
  "fabsf x = \<bar>x\<bar>"

text \<open>C conversions: \<^verbatim>\<open>bool\<close> to \<^verbatim>\<open>float\<close>, a \<^verbatim>\<open>float\<close> as a condition, and \<^verbatim>\<open>float\<close> to
  \<^verbatim>\<open>int8_t\<close> (truncation towards zero; outside the range of \<^verbatim>\<open>int8_t\<close> C leaves the result
  undefined, the model wraps).\<close>

definition bool_to_float :: "bool \<Rightarrow> real" where
  "bool_to_float b = (if b then 1 else 0)"

definition float_cond :: "real \<Rightarrow> bool" where
  "float_cond x = (x \<noteq> 0)"

definition float_to_int8 :: "real \<Rightarrow> int8_t" where
  "float_to_int8 x = word_of_int (if x \<ge> 0 then \<lfloor>x\<rfloor> else \<lceil>x\<rceil>)"

definition int8_to_float :: "int8_t \<Rightarrow> real" where
  "int8_to_float t = real_of_int (sint t)"

definition int16_to_float :: "int16_t \<Rightarrow> real" where
  "int16_to_float t = real_of_int (sint t)"

text \<open>Lines 232-242 of \<^verbatim>\<open>OnControlFrame\<close>: the wheel speed, from the encoders or guessed.
  The literals \<^verbatim>\<open>0.95\<close>, \<^verbatim>\<open>9.8\<close> and \<^verbatim>\<open>0.05\<close> are \<^verbatim>\<open>double\<close>, so the two expressions are
  evaluated in \<^verbatim>\<open>double\<close>, operation by operation, and rounded to \<^verbatim>\<open>float\<close> when stored;
  the quotient of the two \<^verbatim>\<open>float\<close> values is a \<^verbatim>\<open>float\<close> division.\<close>

definition estimate_wheel_v :: "(real \<times> real) option \<Rightarrow> real \<Rightarrow> CarState \<Rightarrow> CarState" where
  "estimate_wheel_v wm dt s =
     (case wm of
        Some (ds, v) \<Rightarrow> s\<lparr>wheel_v := v\<rparr>
      | None \<Rightarrow>
         (let s = s\<lparr>wheel_v :=
                    float_rnd (double_rnd (double_rnd 0.95 *
                      double_rnd (wheel_v s
                        - double_rnd (double_rnd (double_rnd 9.8 * v3 (accel s) 1) * dt))))\<rparr>
          in if float_cond (fabsf (bool_to_float (v3 (gyro s) 2 > 0.1)))
             then s\<lparr>wheel_v :=
                    float_rnd (double_rnd (wheel_v s
                      + double_rnd (double_rnd 0.05
                          * fabsf (float_rnd (v3 (accel s) 0 / v3 (gyro s) 2)))))\<rparr>
             else s))"

text \<open>Lines 221-244: input, IMU, gyro filter, corrected gyro, wheel speed, controller
  state.\<close>

definition UpdateFromSensors :: "'c env \<Rightarrow> tick \<Rightarrow> real \<Rightarrow> 'c Driver \<Rightarrow> 'c Driver" where
  "UpdateFromSensors E inp dt d =
     (let d = (if js_attached d then ReadInput E (js_events inp) d else d);
          gyro_raw = imu_gyro inp;
          d = d\<lparr>carstate := (carstate d)\<lparr>accel := imu_accel inp\<rparr>\<rparr>;
          d = d\<lparr>gyro_last := v3_add (v3_scale (float_rnd (double_rnd 0.95)) (gyro_last d))
                                     (v3_scale (float_rnd (double_rnd 0.05)) gyro_raw)\<rparr>;
          d = d\<lparr>carstate := (carstate d)\<lparr>gyro := v3_sub gyro_raw (gyro_bias d)\<rparr>\<rparr>;
          d = d\<lparr>carstate := estimate_wheel_v (wheel_motion inp) dt (carstate d)\<rparr>;
          d = d\<lparr>controller := ctl_UpdateState E (config d) (accel (carstate d)) (gyro (carstate d))
                                  (wheel_v (carstate d)) dt (controller d)\<rparr>
      in d)"

text \<open>The call of lines 246-250, with \<^verbatim>\<open>u_a\<close> and \<^verbatim>\<open>u_s\<close> set from the stored commands:
  the quotient by \<^verbatim>\<open>127.0\<close> is a \<^verbatim>\<open>double\<close> division, stored in a \<^verbatim>\<open>float\<close>.  The joystick
  arguments are the values of the two \<^verbatim>\<open>double\<close> quotients.\<close>

definition call_GetControl :: "'c env \<Rightarrow> real \<Rightarrow> 'c Driver \<Rightarrow> bool \<times> real \<times> real \<times> 'c" where
  "call_GetControl E dt d =
     (let u_a = float_rnd (double_rnd (int8_to_float (throttle (carstate d)) / 127.0));
          u_s = float_rnd (double_rnd (int8_to_float (steering (carstate d)) / 127.0))
      in ctl_GetControl E (config d) (double_rnd (int16_to_float (js_throttle d) / 32767.0))
           (double_rnd (int16_to_float (js_steering d) / 32767.0)) u_a u_s dt (autodrive d) (frame d)
           (controller d))"

text \<open>Lines 220-258.  The products \<^verbatim>\<open>127*u_a\<close> and \<^verbatim>\<open>127*u_s\<close> are \<^verbatim>\<open>float\<close> products,
  rounded before the conversion to \<^verbatim>\<open>int8_t\<close> truncates them.\<close>

definition OnControlFrame :: "'c env \<Rightarrow> tick \<Rightarrow> real \<Rightarrow> 'c Driver \<Rightarrow> 'c Driver \<times> bool" where
  "OnControlFrame E inp dt d =
     (let d = UpdateFromSensors E inp dt d;
          (updated, u_a, u_s, c) = call_GetControl E dt d;
          d = d\<lparr>controller := c\<rparr>;
          d = (if updated then
                 (let leds = (word_of_int (frame d AND 4) :: uint8_t);
                      leds = leds OR (if IsRecording d then 2 else 0)
                  in d\<lparr>car_controls := car_controls d @ [(leds, u_a, u_s)]\<rparr>)
               else d);
          d = d\<lparr>carstate := (carstate d)\<lparr>throttle := float_to_int8 (float_rnd (127 * u_a))\<rparr>\<rparr>;
          d = d\<lparr>carstate := (carstate d)\<lparr>steering := float_to_int8 (float_rnd (127 * u_s))\<rparr>\<rparr>
      in (d, \<not> done_flag d))"

subsection \<open>Runs of the core\<close>

text \<open>The entry points the core offers its callers, and their effect in sequence.\<close>

datatype op =
  CameraFrame timeval "uint8_t list"
| ControlFrame tick real
| Input js_event
| StartRec string int
| StopRec

fun step :: "'c env \<Rightarrow> op \<Rightarrow> 'c Driver \<Rightarrow> 'c Driver option" where
  "step E (CameraFrame t buf) d = OnCameraFrame E t buf d"
| "step E (ControlFrame inp dt) d = Some (fst (OnControlFrame E inp dt d))"
| "step E (Input e) d = Some (deliver E e d)"
| "step E (StartRec fname fskip) d = Some (snd (StartRecording E fname fskip d))"
| "step E StopRec d = Some (StopRecording d)"

fun run :: "'c env \<Rightarrow> op list \<Rightarrow> 'c Driver \<Rightarrow> 'c Driver option" where
  "run E [] d = Some d"
| "run E (x # xs) d = (case step E x d of None \<Rightarrow> None | Some d' \<Rightarrow> run E xs d')"

text \<open>The wheel speed after each of a sequence of control ticks, the speed before the
  first tick at the head.\<close>

fun wheel_v_trace :: "'c env \<Rightarrow> (tick \<times> real) list \<Rightarrow> 'c Driver \<Rightarrow> real list" where
  "wheel_v_trace E [] d = [wheel_v (carstate d)]"
| "wheel_v_trace E ((inp, dt) # ts) d =
     wheel_v (carstate d) # wheel_v_trace E ts (fst (OnControlFrame E inp dt d))"

section \<open>Reading a record back\<close>

text \<open>
  The reader the source names for the recording format:
  \<^verbatim>\<open>chunk.Chunk(file, align=False, bigendian=False, inclheader=True)\<close>.  A chunk is a
  4-byte tag and a 4-byte little-endian size that counts the 8 bytes of the header;
  \<open>read_chunk\<close> returns the tag, the payload and what follows the chunk.
\<close>

definition rd32 :: "uint8_t list \<Rightarrow> uint32_t" where
  "rd32 bs = ucast (bs ! 0) OR push_bit 8 (ucast (bs ! 1)) OR push_bit 16 (ucast (bs ! 2))
             OR push_bit 24 (ucast (bs ! 3))"

definition rd16 :: "uint8_t list \<Rightarrow> uint16_t" where
  "rd16 bs = ucast (bs ! 0) OR push_bit 8 (ucast (bs ! 1))"

definition read_chunk :: "uint8_t list \<Rightarrow> (uint8_t list \<times> uint8_t list \<times> uint8_t list) option" where
  "read_chunk bs =
     (if length bs < 8 then None
      else let size = unat (rd32 (take 4 (drop 4 bs)))
           in if size < 8 \<or> length bs < size then None
              else Some (take 4 bs, take (size - 8) (drop 8 bs), drop size bs))"

text \<open>The payload of a \<^verbatim>\<open>CSt1\<close> chunk, cut at the offsets \<open>Serialize\<close> writes to: two
  bytes and eight 4-byte values.\<close>

fun split_fields :: "nat list \<Rightarrow> uint8_t list \<Rightarrow> uint8_t list list" where
  "split_fields [] bs = []"
| "split_fields (n # ns) bs = take n bs # split_fields ns (drop n bs)"

definition CarState_layout :: "nat list" where
  "CarState_layout = [1, 1, 4, 4, 4, 4, 4, 4, 4, 4]"

definition parse_CarState :: "uint8_t list \<Rightarrow> uint8_t list list option" where
  "parse_CarState bs =
     (case read_chunk bs of
        None \<Rightarrow> None
      | Some (tag, payload, rest) \<Rightarrow>
          if tag = ascii ''CSt1'' \<and> length payload = sum_list CarState_layout
          then Some (split_fields CarState_layout payload)
          else None)"

text \<open>The fields of a vehicle state in the order of the record, each as its bytes.\<close>

definition CarState_fields :: "(real \<Rightarrow> uint32_t) \<Rightarrow> CarState \<Rightarrow> uint8_t list list" where
  "CarState_fields fb s =
     [[throttle s], [steering s],
      le32 (fb (v3 (accel s) 0)), le32 (fb (v3 (accel s) 1)), le32 (fb (v3 (accel s) 2)),
      le32 (fb (v3 (gyro s) 0)), le32 (fb (v3 (gyro s) 1)), le32 (fb (v3 (gyro s) 2)),
      le32 (fb (wheel_dist s)), le32 (fb (wheel_v s))]"

definition CarState_record :: "(real \<Rightarrow> uint32_t) \<Rightarrow> CarState \<Rightarrow> uint8_t list" where
  "CarState_record fb s = ascii ''CSt1'' @ le32 42 @ concat (CarState_fields fb s)"

text \<open>
  The bytes \<^verbatim>\<open>QueueRecordingData\<close> is expected to queue.  \<open>ctl_record\<close> is what
  \<^verbatim>\<open>controller_.Serialize\<close> writes when given the rest of the frame buffer.
\<close>

definition Y420_chunk :: "uint8_t list \<Rightarrow> uint8_t list" where
  "Y420_chunk buf = ascii ''Y420'' @ le32 (of_nat (length buf + 10)) @ le16 640 @ buf"

definition ctl_record :: "'c env \<Rightarrow> uint8_t list \<Rightarrow> 'c Driver \<Rightarrow> uint8_t list" where
  "ctl_record E buf d =
     ctl_Serialize E (controller d) (ctl_SerializedSize E (controller d) + int (length buf) + 10)"

definition CYCF_frame :: "'c env \<Rightarrow> timeval \<Rightarrow> uint8_t list \<Rightarrow> 'c Driver \<Rightarrow> uint8_t list" where
  "CYCF_frame E t buf d =
     ascii ''CYCF'' @ le32 (of_nat (16 + 42 + length (ctl_record E buf d) + (length buf + 10)))
     @ le32 (word_of_int (tv_sec t)) @ le32 (word_of_int (tv_usec t))
     @ CarState_record (float_bits E) (carstate d) @ ctl_record E buf d @ Y420_chunk buf"

text \<open>The frames handed to the flush thread so far (the entries with a buffer), and the
  invariant of the odometry distance: it is zero in the state and in every queued frame
  (the field lies at offset \<open>16 + 8 + 26\<close> of a frame).\<close>

definition queued_frames :: "'c Driver \<Rightarrow> uint8_t list list" where
  "queued_frames d = List.map_filter (\<lambda>(fd, b, n). b) (flush_entries d)"

definition odometry_zero :: "'c env \<Rightarrow> 'c Driver \<Rightarrow> bool" where
  "odometry_zero E d \<longleftrightarrow>
     wheel_dist (carstate d) = 0
     \<and> (\<forall>b \<in> set (queued_frames d). take 4 (drop (16 + 8 + 26) b) = le32 (float_bits E 0))"

section \<open>A sample environment\<close>

text \<open>
  Concrete collaborators for the examples.  \<open>sample_float_bits\<close> gives the binary32
  pattern of the few values the examples use.  The sample controller declines to give a
  command while \<^verbatim>\<open>autodrive\<close> is set and passes the joystick through otherwise; its
  state is a counter of \<^verbatim>\<open>UpdateState\<close> calls.
\<close>

definition sample_float_bits :: "real \<Rightarrow> uint32_t" where
  "sample_float_bits x =
     (if x = 0 then 0x00000000
      else if x = 1 then 0x3F800000
      else if x = 2 then 0x40000000
      else if x = - 0.5 then 0xBF000000
      else 0x7FC00000)"

definition sample_env :: "nat env" where
  "sample_env =
     \<lparr>float_bits = sample_float_bits,
      open_file = (\<lambda>f. if f = ''/nonexistent/run.rec'' then - 1 else 3),
      fileno_stdout = 1,
      strftime_now = ''cycloid-20200101-120000.rec'',
      N_CONFIGITEMS = 2,
      config_Load = (\<lambda>cfg. (True, cfg)),
      config_SerializedSize = (\<lambda>cfg. 8 + 2 * int (length cfg)),
      config_Serialize = (\<lambda>cfg n. ascii ''cfg1'' @ le32 (word_of_int n) @ concat (map le16 cfg)),
      ceil_Update = (\<lambda>buf stride xg yg pos iters dbg. pos),
      od_Update = (\<lambda>buf a b. ([], [])),
      ctl_UpdateLocation = (\<lambda>cfg xytheta c. c),
      ctl_Plan = (\<lambda>cfg pcar pcone c. c),
      ctl_UpdateState = (\<lambda>cfg a g v dt c. Suc c),
      ctl_GetControl = (\<lambda>cfg jt js u_a u_s dt auto fr c.
         if auto then (False, u_a, u_s, c) else (True, jt, js, c)),
      ctl_ResetState = (\<lambda>c. 0),
      ctl_SerializedSize = (\<lambda>c. 8),
      ctl_Serialize = (\<lambda>c n. ascii ''ctl1'' @ le32 8)\<rparr>"

definition sample_driver :: "nat Driver" where
  "sample_driver = Driver_init sample_env True (0, 0, 0) (0, 0, 0) 0 [100, 250]"

definition sample_tick :: tick where
  "sample_tick = \<lparr>js_events = [], imu_accel = (0, 0, 0), imu_gyro = (0, 0, 0),
                  wheel_motion = None\<rparr>"

text \<open>A driver that holds commands under a declining controller, a driver in motion, and
  two fallback ticks without acceleration (the second with a yaw rate above the
  threshold).\<close>

definition held_driver :: "nat Driver" where
  "held_driver =
     sample_driver\<lparr>carstate := (carstate sample_driver)\<lparr>throttle := - 100, steering := 37\<rparr>,
                   autodrive := True\<rparr>"

definition moving_driver :: "nat Driver" where
  "moving_driver = sample_driver\<lparr>carstate := (carstate sample_driver)\<lparr>wheel_v := 2\<rparr>\<rparr>"

definition decay_ticks :: "(tick \<times> real) list" where
  "decay_ticks = [(sample_tick, 0.01), (sample_tick\<lparr>imu_gyro := (0, 0, 2)\<rparr>, 0.02)]"

definition biased_driver :: "nat Driver" where
  "biased_driver = sample_driver\<lparr>gyro_last := (0.01, - 0.02, 0.03)\<rparr>"

definition biased_tick :: tick where
  "biased_tick = sample_tick\<lparr>js_events := [AxisMove 2 5], imu_gyro := (0.01, - 0.02, 0.03)\<rparr>"

text \<open>A driver whose bias differs from the reading of the tick, a driver at the smallest
  positive \<^verbatim>\<open>float\<close>, and a controller that returns false after it has written the two
  command variables.\<close>

definition offset_driver :: "nat Driver" where
  "offset_driver = sample_driver\<lparr>gyro_bias := (0.25, - 0.5, 1), gyro_last := (7, 8, 9)\<rparr>"

definition offset_tick :: tick where
  "offset_tick = sample_tick\<lparr>imu_gyro := (0.5, 0.25, - 1)\<rparr>"

definition tiny_driver :: "nat Driver" where
  "tiny_driver = sample_driver\<lparr>carstate := (carstate sample_driver)\<lparr>wheel_v := 1 / 2 ^ 149\<rparr>\<rparr>"

definition overwriting_env :: "nat env" where
  "overwriting_env =
     sample_env\<lparr>ctl_GetControl := (\<lambda>cfg jt js u_a u_s dt auto fr c. (False, 0, 0.5, c))\<rparr>"

text \<open>A vehicle state with negative commands, a recording driver, a time stamp and a
  short run of the core.\<close>

definition neg_carstate :: CarState where
  "neg_carstate = \<lparr>accel = (1, 0, 2), gyro = (0, 0, - 0.5), throttle = - 100, steering = - 37,
                    wheel_dist = 0, wheel_v = 1, ceiltrack_pos = (CEILHOME_X, CEILHOME_Y, CEILHOME_THETA)\<rparr>"

definition rec_driver :: "nat Driver" where
  "rec_driver = snd (StartRecording sample_env ''session.rec'' 0 sample_driver)"

definition sample_time :: timeval where
  "sample_time = \<lparr>tv_sec = 1600000000, tv_usec = 250000\<rparr>"

definition sample_ops :: "op list" where
  "sample_ops =
     [StartRec ''session.rec'' 0,
      CameraFrame sample_time [1, 2, 3],
      ControlFrame (sample_tick\<lparr>wheel_motion := Some (0.25, 1.5)\<rparr>) 0.01,
      Input (ButtonPress (CHR ''H'')),
      StopRec]"

section \<open>Auxiliary facts\<close>

text \<open>The state of the driver once the pending input events are delivered
  (lines 221-223 of \<^verbatim>\<open>OnControlFrame\<close>).\<close>

definition after_input :: "'c env \<Rightarrow> tick \<Rightarrow> 'c Driver \<Rightarrow> 'c Driver" where
  "after_input E inp d = (if js_attached d then ReadInput E (js_events inp) d else d)"

text \<open>Computing a rounding: \<open>find_scale k p a 0\<close> is the least \<open>n\<close> (up to \<open>k\<close>) for which
  \<open>a * 2 ^ n\<close> has \<open>p\<close> bits before the point, and \<open>scaled_round x n\<close> rounds \<open>x\<close> at the
  weight \<open>1 / 2 ^ n\<close>.\<close>

fun find_scale :: "nat \<Rightarrow> nat \<Rightarrow> real \<Rightarrow> nat \<Rightarrow> nat" where
  "find_scale 0 p a n = n"
| "find_scale (Suc k) p a n = (if 2 ^ (p - 1) \<le> a * 2 ^ n then n else find_scale k p a (Suc n))"

definition scale_ok :: "nat \<Rightarrow> int \<Rightarrow> real \<Rightarrow> nat \<Rightarrow> bool" where
  "scale_ok p emin x n \<longleftrightarrow>
     2 ^ (p - 1) \<le> \<bar>x\<bar> * 2 ^ n \<and> \<bar>x\<bar> * 2 ^ n < 2 ^ p \<and> emin \<le> - int n \<and> 1 \<le> p"

definition scaled_round :: "real \<Rightarrow> nat \<Rightarrow> real" where
  "scaled_round x n = real_of_int (rne (x * 2 ^ n)) / 2 ^ n"

text \<open>The value of \<^verbatim>\<open>127*u_a\<close> when \<^verbatim>\<open>u_a\<close> still holds the quotient of \<open>x\<close> by \<^verbatim>\<open>127.0\<close>
  that line 246 stored in it.\<close>

definition held_value :: "real \<Rightarrow> real" where
  "held_value x = float_rnd (127 * float_rnd (double_rnd (x / 127)))"

subsection \<open>Rounding\<close>

lemma rne_of_int: "rne (real_of_int n) = n"
  by (simp add: rne_def)

lemma rne_bounds: "\<lfloor>y\<rfloor> \<le> rne y" "rne y \<le> \<lfloor>y\<rfloor> + 1"
  by (simp_all add: rne_def Let_def)

lemma rne_mono: "x \<le> y \<Longrightarrow> rne x \<le> rne y"
proof -
  assume xy: "x \<le> y"
  then have f: "\<lfloor>x\<rfloor> \<le> \<lfloor>y\<rfloor>" by (rule floor_mono)
  show ?thesis
  proof (cases "\<lfloor>x\<rfloor> = \<lfloor>y\<rfloor>")
    case True
    then show ?thesis using xy by (auto simp: rne_def Let_def)
  next
    case False
    with f have "\<lfloor>x\<rfloor> + 1 \<le> \<lfloor>y\<rfloor>" by simp
    with rne_bounds(2) [of x] rne_bounds(1) [of y] show ?thesis by linarith
  qed
qed

lemma rne_minus: "rne (- y) = - rne y"
proof (cases "y = real_of_int \<lfloor>y\<rfloor>")
  case True
  then obtain n where "y = real_of_int n" ..
  then have "- y = real_of_int (- n)" by simp
  then show ?thesis using \<open>y = real_of_int n\<close> rne_of_int by metis
next
  case False
  then have lt: "real_of_int \<lfloor>y\<rfloor> < y" using of_int_floor_le [of y] by linarith
  have "\<lfloor>- y\<rfloor> = - \<lfloor>y\<rfloor> - 1"
    by (rule floor_unique) (use lt in \<open>simp_all\<close>, linarith)
  then have fl: "\<lfloor>- y\<rfloor> = - \<lfloor>y\<rfloor> - 1" .
  show ?thesis
    unfolding rne_def Let_def fl using lt by (auto simp: algebra_simps)
qed

lemma rne_ge: "real_of_int n \<le> y \<Longrightarrow> n \<le> rne y"
  using rne_mono [of "real_of_int n" y] by (simp add: rne_of_int)

lemma rne_le: "y \<le> real_of_int n \<Longrightarrow> rne y \<le> n"
  using rne_mono [of y "real_of_int n"] by (simp add: rne_of_int)

lemma pw_pos: "0 < (2 :: real) powi k"
  by (simp add: zero_less_power_int)

lemma pw_add: "(2 :: real) powi (a + b) = 2 powi a * 2 powi b"
  by (simp add: power_int_add)

lemma pw_mono: "a \<le> b \<Longrightarrow> (2 :: real) powi a \<le> 2 powi b"
  by (simp add: power_int_increasing)

lemma pw_less: "a < b \<Longrightarrow> (2 :: real) powi a < 2 powi b"
  by (simp add: power_int_strict_increasing)

lemma log_bounds:
  assumes "x \<noteq> 0"
  shows "2 powi \<lfloor>log 2 \<bar>x\<bar>\<rfloor> \<le> \<bar>x\<bar>" "\<bar>x\<bar> < 2 powi (\<lfloor>log 2 \<bar>x\<bar>\<rfloor> + 1)"
proof -
  have "0 < \<bar>x\<bar>" using assms by simp
  from floor_log_eq_powr_iff [OF this, of 2 "\<lfloor>log 2 \<bar>x\<bar>\<rfloor>"]
  have "2 powr real_of_int \<lfloor>log 2 \<bar>x\<bar>\<rfloor> \<le> \<bar>x\<bar>" "\<bar>x\<bar> < 2 powr real_of_int (\<lfloor>log 2 \<bar>x\<bar>\<rfloor> + 1)"
    by simp_all
  then show "2 powi \<lfloor>log 2 \<bar>x\<bar>\<rfloor> \<le> \<bar>x\<bar>" "\<bar>x\<bar> < 2 powi (\<lfloor>log 2 \<bar>x\<bar>\<rfloor> + 1)"
    by (simp_all only: powr_real_of_int' [of 2, simplified])
qed

lemma log_unique:
  assumes "2 powi k \<le> \<bar>x\<bar>" "\<bar>x\<bar> < 2 powi (k + 1)"
  shows "\<lfloor>log 2 \<bar>x\<bar>\<rfloor> = k"
proof -
  have "0 < \<bar>x\<bar>" using assms(1) pw_pos [of k] by linarith
  from floor_log_eq_powr_iff [OF this, of 2 k] assms
  show ?thesis by (simp only: powr_real_of_int' [of 2, simplified, symmetric])
qed

lemma pw_nat: "(2 :: real) powi int n = 2 ^ n"
  by (rule power_int_of_nat)

lemma pw_diff: "(2 :: real) powi (a - b) = 2 powi a / 2 powi b"
  using pw_add [of "a - b" b] pw_pos [of b] by (simp add: field_simps)

lemma round_to_0: "round_to p emin 0 = 0"
  by (simp add: round_to_def)

lemma ulp_exp_minus: "ulp_exp p emin (- x) = ulp_exp p emin x"
  by (simp add: ulp_exp_def)

lemma round_to_minus: "round_to p emin (- x) = - round_to p emin x"
  by (simp add: round_to_def ulp_exp_minus rne_minus)

lemma ulp_exp_ge: "emin \<le> ulp_exp p emin x"
  by (simp add: ulp_exp_def)

lemma scaled_lt:
  assumes "x \<noteq> 0"
  shows "\<bar>x\<bar> / 2 powi ulp_exp p emin x < 2 ^ p"
proof -
  let ?e = "ulp_exp p emin x"
  have "\<lfloor>log 2 \<bar>x\<bar>\<rfloor> + 1 \<le> ?e + int p" by (simp add: ulp_exp_def)
  then have "(2 :: real) powi (\<lfloor>log 2 \<bar>x\<bar>\<rfloor> + 1) \<le> 2 powi (?e + int p)" by (rule pw_mono)
  with log_bounds(2) [OF assms] have "\<bar>x\<bar> < 2 powi (?e + int p)" by linarith
  then have "\<bar>x\<bar> < 2 powi ?e * 2 ^ p" by (simp add: pw_add pw_nat)
  then show ?thesis using pw_pos [of ?e] by (simp add: field_simps)
qed

lemma rne_abs_le:
  assumes "\<bar>y\<bar> \<le> real_of_int n"
  shows "\<bar>rne y\<bar> \<le> n"
proof -
  have "y \<le> real_of_int n" "real_of_int (- n) \<le> y" using assms by simp_all
  then have "rne y \<le> n" "- n \<le> rne y" by (simp_all only: rne_le rne_ge)
  then show ?thesis by simp
qed

lemma round_form:
  "\<exists>m. round_to p emin x = real_of_int m * 2 powi ulp_exp p emin x \<and> \<bar>m\<bar> \<le> 2 ^ p"
proof (cases "x = 0")
  case True
  then show ?thesis by (intro exI [of _ 0]) (simp add: round_to_def)
next
  case False
  let ?e = "ulp_exp p emin x"
  have "\<bar>x / 2 powi ?e\<bar> = \<bar>x\<bar> / 2 powi ?e" using pw_pos [of ?e] by simp
  with scaled_lt [OF False, of p emin] have "\<bar>x / 2 powi ?e\<bar> \<le> real_of_int (2 ^ p)" by simp
  then have "\<bar>rne (x / 2 powi ?e)\<bar> \<le> 2 ^ p" by (rule rne_abs_le)
  with False show ?thesis by (intro exI [of _ "rne (x / 2 powi ?e)"]) (simp add: round_to_def)
qed

lemma round_repr_strict:
  assumes "\<bar>m\<bar> < 2 ^ p" "emin \<le> q"
  shows "round_to p emin (real_of_int m * 2 powi q) = real_of_int m * 2 powi q"
proof (cases "m = 0")
  case True
  then show ?thesis by (simp add: round_to_def)
next
  case False
  let ?x = "real_of_int m * 2 powi q"
  let ?L = "\<lfloor>log 2 \<bar>?x\<bar>\<rfloor>"
  let ?e = "ulp_exp p emin ?x"
  have x0: "?x \<noteq> 0" using False pw_pos [of q] by simp
  have ax: "\<bar>?x\<bar> = real_of_int \<bar>m\<bar> * 2 powi q" using pw_pos [of q] by (simp add: abs_mult)
  have "real_of_int \<bar>m\<bar> < 2 ^ p" using assms(1) by (metis of_int_less_iff of_int_numeral of_int_power)
  then have "\<bar>?x\<bar> < 2 ^ p * 2 powi q" unfolding ax using pw_pos [of q] by simp
  then have lt: "\<bar>?x\<bar> < 2 powi (q + int p)" by (simp add: pw_add pw_nat mult.commute)
  have "?L < q + int p"
  proof (rule ccontr)
    assume "\<not> ?L < q + int p"
    then have "(2 :: real) powi (q + int p) \<le> 2 powi ?L" by (intro pw_mono) simp
    with log_bounds(1) [OF x0] lt show False by linarith
  qed
  then have eq: "?e \<le> q" using assms(2) by (simp add: ulp_exp_def)
  then obtain k where k: "q = ?e + int k" by (metis zle_iff_zadd)
  have "?x / 2 powi ?e = real_of_int m * 2 ^ k"
    using pw_pos [of ?e] by (subst (1) k) (simp add: pw_add pw_nat)
  then have "?x / 2 powi ?e = real_of_int (m * 2 ^ k)" by simp
  then have "rne (?x / 2 powi ?e) = m * 2 ^ k" by (simp only: rne_of_int)
  then have "round_to p emin ?x = real_of_int (m * 2 ^ k) * 2 powi ?e"
    using x0 by (simp add: round_to_def)
  also have "\<dots> = real_of_int m * 2 powi (?e + int k)" by (simp add: pw_add pw_nat)
  finally show ?thesis using k by simp
qed

lemma round_repr:
  assumes "1 \<le> p" "\<bar>m\<bar> \<le> 2 ^ p" "emin \<le> q"
  shows "round_to p emin (real_of_int m * 2 powi q) = real_of_int m * 2 powi q"
proof (cases "\<bar>m\<bar> < 2 ^ p")
  case True
  then show ?thesis using assms(3) by (rule round_repr_strict)
next
  case False
  with assms(2) have am: "\<bar>m\<bar> = 2 ^ p" by simp
  obtain p' where p': "p = Suc p'" using assms(1) by (cases p) simp_all
  define m' :: int where "m' = (if 0 \<le> m then 2 ^ p' else - (2 ^ p'))"
  have m: "m = m' * 2" using am by (auto simp: m'_def p' abs_if split: if_splits)
  have "\<bar>m'\<bar> < 2 ^ p" by (simp add: m'_def p')
  moreover have "emin \<le> q + 1" using assms(3) by simp
  ultimately have "round_to p emin (real_of_int m' * 2 powi (q + 1)) = real_of_int m' * 2 powi (q + 1)"
    by (rule round_repr_strict)
  moreover have "real_of_int m' * 2 powi (q + 1) = real_of_int m * 2 powi q"
    by (simp add: m pw_add)
  ultimately show ?thesis by simp
qed

lemma round_idem:
  assumes "1 \<le> p"
  shows "round_to p emin (round_to p emin x) = round_to p emin x"
proof -
  from round_form [of p emin x] obtain m where
    m: "round_to p emin x = real_of_int m * 2 powi ulp_exp p emin x" "\<bar>m\<bar> \<le> 2 ^ p" by blast
  show ?thesis unfolding m(1) using assms m(2) ulp_exp_ge by (rule round_repr)
qed

lemma round_nonneg: "0 \<le> x \<Longrightarrow> 0 \<le> round_to p emin x"
proof -
  assume x: "0 \<le> x"
  have "0 \<le> rne (x / 2 powi ulp_exp p emin x)"
    by (rule rne_ge) (use x pw_pos [of "ulp_exp p emin x"] in simp)
  then show ?thesis using pw_pos [of "ulp_exp p emin x"] by (simp add: round_to_def)
qed

lemma round_nonpos: "x \<le> 0 \<Longrightarrow> round_to p emin x \<le> 0"
  using round_nonneg [of "- x" p emin] by (simp add: round_to_minus)

lemma round_mono_pos:
  assumes p: "1 \<le> p" and x: "0 < x" and xy: "x \<le> y"
  shows "round_to p emin x \<le> round_to p emin y"
proof -
  let ?ex = "ulp_exp p emin x" and ?ey = "ulp_exp p emin y"
  have y: "0 < y" using x xy by simp
  have "log 2 \<bar>x\<bar> \<le> log 2 \<bar>y\<bar>" using x xy by simp
  then have "\<lfloor>log 2 \<bar>x\<bar>\<rfloor> \<le> \<lfloor>log 2 \<bar>y\<bar>\<rfloor>" by (rule floor_mono)
  then have le: "?ex \<le> ?ey" by (simp add: ulp_exp_def)
  have rx: "round_to p emin x = real_of_int (rne (x / 2 powi ?ex)) * 2 powi ?ex"
    and ry: "round_to p emin y = real_of_int (rne (y / 2 powi ?ey)) * 2 powi ?ey"
    using x y by (simp_all add: round_to_def)
  show ?thesis
  proof (cases "?ex = ?ey")
    case True
    have "x / 2 powi ?ey \<le> y / 2 powi ?ey" using xy pw_pos [of ?ey] by (simp add: divide_right_mono)
    then have "rne (x / 2 powi ?ey) \<le> rne (y / 2 powi ?ey)" by (rule rne_mono)
    then show ?thesis unfolding rx ry True using pw_pos [of ?ey] by simp
  next
    case False
    with le have lt: "?ex + 1 \<le> ?ey" by simp
    have "emin < ?ey" using lt ulp_exp_ge [of emin p x] by linarith
    then have ey: "?ey = \<lfloor>log 2 \<bar>y\<bar>\<rfloor> - int p + 1" by (simp add: ulp_exp_def max_def split: if_splits)
    obtain p' where p': "p = Suc p'" using p by (cases p) simp_all
    have L: "\<lfloor>log 2 \<bar>y\<bar>\<rfloor> = ?ey + int p'" using ey p' by simp
    have "2 powi (?ey + int p') \<le> \<bar>y\<bar>" using log_bounds(1) [of y] y L by simp
    then have "2 ^ p' * 2 powi ?ey \<le> y" using y by (simp add: pw_add pw_nat mult.commute)
    then have "real_of_int (2 ^ p') \<le> y / 2 powi ?ey" using pw_pos [of ?ey] by (simp add: field_simps)
    then have "2 ^ p' \<le> rne (y / 2 powi ?ey)" by (rule rne_ge)
    then have "real_of_int (2 ^ p') \<le> real_of_int (rne (y / 2 powi ?ey))" by (simp only: of_int_le_iff)
    then have "2 ^ p' * 2 powi ?ey \<le> round_to p emin y"
      unfolding ry using pw_pos [of ?ey] by simp
    then have lower: "2 powi (?ey + int p') \<le> round_to p emin y" by (simp add: pw_add pw_nat mult.commute)
    have "x / 2 powi ?ex \<le> real_of_int (2 ^ p)"
      using scaled_lt [of x p emin] x by simp
    then have "rne (x / 2 powi ?ex) \<le> 2 ^ p" by (rule rne_le)
    then have "real_of_int (rne (x / 2 powi ?ex)) \<le> real_of_int (2 ^ p)" by (simp only: of_int_le_iff)
    then have "round_to p emin x \<le> 2 ^ p * 2 powi ?ex"
      unfolding rx using pw_pos [of ?ex] by simp
    then have upper: "round_to p emin x \<le> 2 powi (?ex + int p)" by (simp add: pw_add pw_nat mult.commute)
    have "?ex + int p \<le> ?ey + int p'" using lt p' by simp
    then have "(2 :: real) powi (?ex + int p) \<le> 2 powi (?ey + int p')" by (rule pw_mono)
    with lower upper show ?thesis by linarith
  qed
qed

lemma round_mono:
  assumes p: "1 \<le> p" and xy: "x \<le> y"
  shows "round_to p emin x \<le> round_to p emin y"
proof -
  consider "0 < x" | "x \<le> 0" "0 \<le> y" | "y < 0" using xy by linarith
  then show ?thesis
  proof cases
    case 1
    then show ?thesis using p xy by (intro round_mono_pos)
  next
    case 2
    then show ?thesis using round_nonneg [of y p emin] round_nonpos [of x p emin] by linarith
  next
    case 3
    then have "0 < - y" "- y \<le> - x" using xy by simp_all
    with p have "round_to p emin (- y) \<le> round_to p emin (- x)" by (intro round_mono_pos)
    then show ?thesis by (simp add: round_to_minus)
  qed
qed

lemma round_to_scaled:
  assumes "2 ^ (p - 1) \<le> \<bar>x\<bar> * 2 ^ n" "\<bar>x\<bar> * 2 ^ n < 2 ^ p" "emin \<le> - int n" "1 \<le> p"
  shows "round_to p emin x = real_of_int (rne (x * 2 ^ n)) / 2 ^ n"
proof -
  obtain p' where p': "p = Suc p'" using assms(4) by (cases p) simp_all
  define k where "k = int p' - int n"
  have pk: "(2 :: real) powi k = 2 ^ p' / 2 ^ n" by (simp add: k_def pw_diff pw_nat)
  have pk1: "(2 :: real) powi (k + 1) = 2 ^ p / 2 ^ n" by (simp add: pw_add pk p')
  have "2 powi k \<le> \<bar>x\<bar>" unfolding pk using assms(1) by (simp add: p' field_simps)
  moreover have "\<bar>x\<bar> < 2 powi (k + 1)" unfolding pk1 using assms(2) by (simp add: field_simps)
  ultimately have L: "\<lfloor>log 2 \<bar>x\<bar>\<rfloor> = k" by (rule log_unique)
  have e: "ulp_exp p emin x = - int n"
    using assms(3) by (simp add: ulp_exp_def L k_def p')
  have x0: "x \<noteq> 0"
  proof
    assume "x = 0"
    with assms(1) have "(2 :: real) ^ (p - 1) \<le> 0" by simp
    moreover have "0 < (2 :: real) ^ (p - 1)" by (rule zero_less_power) simp
    ultimately show False by linarith
  qed
  have pn: "(2 :: real) powi (- int n) = 1 / 2 ^ n" by (simp add: power_int_minus_divide pw_nat)
  show ?thesis using x0 by (simp add: round_to_def e pn)
qed

lemma round_to_subnormal:
  assumes "x \<noteq> 0" "\<bar>x\<bar> * 2 ^ n < 2 ^ (p - 1)" "emin = - int n" "1 \<le> p"
  shows "round_to p emin x = real_of_int (rne (x * 2 ^ n)) / 2 ^ n"
proof -
  obtain p' where p': "p = Suc p'" using assms(4) by (cases p) simp_all
  have "\<bar>x\<bar> < 2 ^ p' / 2 ^ n" using assms(2) by (simp add: p' field_simps)
  then have lt: "\<bar>x\<bar> < 2 powi (int p' - int n)" by (simp add: pw_diff pw_nat)
  have "\<lfloor>log 2 \<bar>x\<bar>\<rfloor> < int p' - int n"
  proof (rule ccontr)
    assume "\<not> \<lfloor>log 2 \<bar>x\<bar>\<rfloor> < int p' - int n"
    then have "(2 :: real) powi (int p' - int n) \<le> 2 powi \<lfloor>log 2 \<bar>x\<bar>\<rfloor>" by (intro pw_mono) simp
    with log_bounds(1) [OF assms(1)] lt show False by linarith
  qed
  then have e: "ulp_exp p emin x = - int n"
    using assms(3) by (simp add: ulp_exp_def p')
  have pn: "(2 :: real) powi (- int n) = 1 / 2 ^ n" by (simp add: power_int_minus_divide pw_nat)
  show ?thesis using assms(1) by (simp add: round_to_def e pn)
qed

lemma find_scale_numeral:
  "find_scale (numeral k) p a n =
     (if 2 ^ (p - 1) \<le> a * 2 ^ n then n else find_scale (pred_numeral k) p a (Suc n))"
  by (simp add: numeral_eq_Suc)

lemma round_to_search:
  "scale_ok p emin x (find_scale 64 p \<bar>x\<bar> 0) \<Longrightarrow>
   round_to p emin x = scaled_round x (find_scale 64 p \<bar>x\<bar> 0)"
  unfolding scale_ok_def scaled_round_def by (intro round_to_scaled) simp_all

lemmas rnd_eval = float_rnd_def double_rnd_def round_to_search find_scale_numeral scale_ok_def
  scaled_round_def rne_def Let_def

lemma float_rnd_0: "float_rnd 0 = 0"
  by (simp add: float_rnd_def round_to_0)

lemma double_rnd_0: "double_rnd 0 = 0"
  by (simp add: double_rnd_def round_to_0)

lemma float_rnd_minus: "float_rnd (- x) = - float_rnd x"
  by (simp add: float_rnd_def round_to_minus)

lemma double_rnd_minus: "double_rnd (- x) = - double_rnd x"
  by (simp add: double_rnd_def round_to_minus)

lemma float_rnd_mono: "x \<le> y \<Longrightarrow> float_rnd x \<le> float_rnd y"
  unfolding float_rnd_def by (rule round_mono) simp_all

lemma double_rnd_mono: "x \<le> y \<Longrightarrow> double_rnd x \<le> double_rnd y"
  unfolding double_rnd_def by (rule round_mono) simp_all

lemma float_rnd_idem: "float_rnd (float_rnd x) = float_rnd x"
  unfolding float_rnd_def by (rule round_idem) simp

lemma float_rnd_int: "\<bar>m\<bar> \<le> 2 ^ 24 \<Longrightarrow> float_rnd (real_of_int m) = real_of_int m"
  unfolding float_rnd_def using round_repr [of 24 m "- 149" 0] by simp

lemma double_rnd_int: "\<bar>m\<bar> \<le> 2 ^ 53 \<Longrightarrow> double_rnd (real_of_int m) = real_of_int m"
  unfolding double_rnd_def using round_repr [of 53 m "- 1074" 0] by simp

text \<open>Every \<^verbatim>\<open>float\<close> is a \<^verbatim>\<open>double\<close>.\<close>

lemma float_in_double:
  assumes "float_rnd x = x"
  shows "double_rnd x = x"
proof -
  from round_form [of 24 "- 149" x] obtain m where
    m: "round_to 24 (- 149) x = real_of_int m * 2 powi ulp_exp 24 (- 149) x" "\<bar>m\<bar> \<le> 2 ^ 24"
    by blast
  have x: "x = real_of_int m * 2 powi ulp_exp 24 (- 149) x"
    using assms m(1) by (simp add: float_rnd_def)
  have "\<bar>m\<bar> \<le> 2 ^ 53" using m(2) by simp
  moreover have "- 1074 \<le> ulp_exp 24 (- 149) x" using ulp_exp_ge [of "- 149" 24 x] by simp
  ultimately have "round_to 53 (- 1074) (real_of_int m * 2 powi ulp_exp 24 (- 149) x)
      = real_of_int m * 2 powi ulp_exp 24 (- 149) x"
    by (intro round_repr) simp_all
  then show ?thesis unfolding double_rnd_def using x by simp
qed

lemma float_rnd_half: "float_rnd (1 / 2) = 1 / 2"
  by (simp add: rnd_eval)

lemma double_float: "double_rnd (float_rnd x) = float_rnd x"
  by (rule float_in_double) (rule float_rnd_idem)

lemma decay_factor: "0 \<le> double_rnd 0.95" "double_rnd 0.95 \<le> 1"
proof -
  show "0 \<le> double_rnd 0.95" using double_rnd_mono [of 0 "0.95"] by (simp add: double_rnd_0)
  have "double_rnd (real_of_int 1) = real_of_int 1" by (rule double_rnd_int) simp
  then show "double_rnd 0.95 \<le> 1" using double_rnd_mono [of "0.95" 1] by simp
qed

text \<open>The decayed value is no larger in magnitude than the \<^verbatim>\<open>float\<close> it comes from.\<close>

lemma decay_le:
  assumes "float_rnd w = w"
  shows "\<bar>float_rnd (double_rnd (double_rnd 0.95 * w))\<bar> \<le> \<bar>w\<bar>"
proof -
  let ?c = "double_rnd 0.95"
  have dw: "double_rnd w = w" by (rule float_in_double [OF assms])
  show ?thesis
  proof (cases "0 \<le> w")
    case True
    then have "0 \<le> ?c * w" "?c * w \<le> w"
      using decay_factor by (simp_all add: mult_left_le_one_le)
    then have "double_rnd 0 \<le> double_rnd (?c * w)" "double_rnd (?c * w) \<le> double_rnd w"
      by (simp_all only: double_rnd_mono)
    then have "0 \<le> double_rnd (?c * w)" "double_rnd (?c * w) \<le> w"
      by (simp_all add: double_rnd_0 dw)
    then have "float_rnd 0 \<le> float_rnd (double_rnd (?c * w))"
      "float_rnd (double_rnd (?c * w)) \<le> float_rnd w"
      by (simp_all only: float_rnd_mono)
    then show ?thesis using True by (simp add: float_rnd_0 assms)
  next
    case False
    then have "?c * w \<le> 0" "w \<le> ?c * w"
      using decay_factor by (simp_all add: mult_le_0_iff)
    then have "double_rnd (?c * w) \<le> double_rnd 0" "double_rnd w \<le> double_rnd (?c * w)"
      by (simp_all only: double_rnd_mono)
    then have "double_rnd (?c * w) \<le> 0" "w \<le> double_rnd (?c * w)"
      by (simp_all add: double_rnd_0 dw)
    then have "float_rnd (double_rnd (?c * w)) \<le> float_rnd 0"
      "float_rnd w \<le> float_rnd (double_rnd (?c * w))"
      by (simp_all only: float_rnd_mono)
    then show ?thesis using False by (simp add: float_rnd_0 assms)
  qed
qed

subsection \<open>The command round trip\<close>

text \<open>For each of the 256 values of an \<^verbatim>\<open>int8_t\<close>, dividing by \<^verbatim>\<open>127.0\<close>, storing the
  quotient in a \<^verbatim>\<open>float\<close> and multiplying by 127 in \<^verbatim>\<open>float\<close> gives the value back.  This
  is not a consequence of the error bounds of the roundings: it is checked value by
  value.\<close>

lemma held_value_1_16:
  "held_value 1 = 1"
  "held_value 2 = 2"
  "held_value 3 = 3"
  "held_value 4 = 4"
  "held_value 5 = 5"
  "held_value 6 = 6"
  "held_value 7 = 7"
  "held_value 8 = 8"
  "held_value 9 = 9"
  "held_value 10 = 10"
  "held_value 11 = 11"
  "held_value 12 = 12"
  "held_value 13 = 13"
  "held_value 14 = 14"
  "held_value 15 = 15"
  "held_value 16 = 16"
  by (simp_all add: held_value_def rnd_eval)

lemma held_value_17_32:
  "held_value 17 = 17"
  "held_value 18 = 18"
  "held_value 19 = 19"
  "held_value 20 = 20"
  "held_value 21 = 21"
  "held_value 22 = 22"
  "held_value 23 = 23"
  "held_value 24 = 24"
  "held_value 25 = 25"
  "held_value 26 = 26"
  "held_value 27 = 27"
  "held_value 28 = 28"
  "held_value 29 = 29"
  "held_value 30 = 30"
  "held_value 31 = 31"
  "held_value 32 = 32"
  by (simp_all add: held_value_def rnd_eval)

lemma held_value_33_48:
  "held_value 33 = 33"
  "held_value 34 = 34"
  "held_value 35 = 35"
  "held_value 36 = 36"
  "held_value 37 = 37"
  "held_value 38 = 38"
  "held_value 39 = 39"
  "held_value 40 = 40"
  "held_value 41 = 41"
  "held_value 42 = 42"
  "held_value 43 = 43"
  "held_value 44 = 44"
  "held_value 45 = 45"
  "held_value 46 = 46"
  "held_value 47 = 47"
  "held_value 48 = 48"
  by (simp_all add: held_value_def rnd_eval)

lemma held_value_49_64:
  "held_value 49 = 49"
  "held_value 50 = 50"
  "held_value 51 = 51"
  "held_value 52 = 52"
  "held_value 53 = 53"
  "held_value 54 = 54"
  "held_value 55 = 55"
  "held_value 56 = 56"
  "held_value 57 = 57"
  "held_value 58 = 58"
  "held_value 59 = 59"
  "held_value 60 = 60"
  "held_value 61 = 61"
  "held_value 62 = 62"
  "held_value 63 = 63"
  "held_value 64 = 64"
  by (simp_all add: held_value_def rnd_eval)

lemma held_value_65_80:
  "held_value 65 = 65"
  "held_value 66 = 66"
  "held_value 67 = 67"
  "held_value 68 = 68"
  "held_value 69 = 69"
  "held_value 70 = 70"
  "held_value 71 = 71"
  "held_value 72 = 72"
  "held_value 73 = 73"
  "held_value 74 = 74"
  "held_value 75 = 75"
  "held_value 76 = 76"
  "held_value 77 = 77"
  "held_value 78 = 78"
  "held_value 79 = 79"
  "held_value 80 = 80"
  by (simp_all add: held_value_def rnd_eval)

lemma held_value_81_96:
  "held_value 81 = 81"
  "held_value 82 = 82"
  "held_value 83 = 83"
  "held_value 84 = 84"
  "held_value 85 = 85"
  "held_value 86 = 86"
  "held_value 87 = 87"
  "held_value 88 = 88"
  "held_value 89 = 89"
  "held_value 90 = 90"
  "held_value 91 = 91"
  "held_value 92 = 92"
  "held_value 93 = 93"
  "held_value 94 = 94"
  "held_value 95 = 95"
  "held_value 96 = 96"
  by (simp_all add: held_value_def rnd_eval)

lemma held_value_97_112:
  "held_value 97 = 97"
  "held_value 98 = 98"
  "held_value 99 = 99"
  "held_value 100 = 100"
  "held_value 101 = 101"
  "held_value 102 = 102"
  "held_value 103 = 103"
  "held_value 104 = 104"
  "held_value 105 = 105"
  "held_value 106 = 106"
  "held_value 107 = 107"
  "held_value 108 = 108"
  "held_value 109 = 109"
  "held_value 110 = 110"
  "held_value 111 = 111"
  "held_value 112 = 112"
  by (simp_all add: held_value_def rnd_eval)

lemma held_value_113_128:
  "held_value 113 = 113"
  "held_value 114 = 114"
  "held_value 115 = 115"
  "held_value 116 = 116"
  "held_value 117 = 117"
  "held_value 118 = 118"
  "held_value 119 = 119"
  "held_value 120 = 120"
  "held_value 121 = 121"
  "held_value 122 = 122"
  "held_value 123 = 123"
  "held_value 124 = 124"
  "held_value 125 = 125"
  "held_value 126 = 126"
  "held_value 127 = 127"
  "held_value 128 = 128"
  by (simp_all add: held_value_def rnd_eval)

lemmas held_value_num = held_value_1_16 held_value_17_32 held_value_33_48 held_value_49_64 held_value_65_80 held_value_81_96 held_value_97_112 held_value_113_128

lemma held_value_pos:
  assumes "1 \<le> i" "i \<le> 128"
  shows "held_value (real_of_int i) = real_of_int i"
proof -
  from assms have "i \<in> set [1..128]" by simp
  then show ?thesis
    by (simp add: upto_rec_numeral upto.simps [of 1] del: set_upto)
       (elim disjE, simp_all add: held_value_num)
qed

lemma held_value_minus: "held_value (- x) = - held_value x"
  by (simp add: held_value_def float_rnd_minus double_rnd_minus)

lemma held_value_int8: "held_value (int8_to_float t) = int8_to_float t"
proof -
  have r: "- 128 \<le> sint t" "sint t \<le> 127"
    using sint_ge [of t] sint_lt [of t] by simp_all
  consider "sint t = 0" | "1 \<le> sint t" | "1 \<le> - sint t" by linarith
  then have "held_value (real_of_int (sint t)) = real_of_int (sint t)"
  proof cases
    case 1
    then show ?thesis by (simp add: held_value_def float_rnd_0 double_rnd_0)
  next
    case 2
    then show ?thesis using r by (intro held_value_pos) simp_all
  next
    case 3
    then have "held_value (real_of_int (- sint t)) = real_of_int (- sint t)"
      using r by (intro held_value_pos) simp_all
    then show ?thesis by (simp add: held_value_minus)
  qed
  then show ?thesis by (simp only: int8_to_float_def)
qed

lemma float_int8_roundtrip:
  "float_to_int8 (float_rnd (127 * float_rnd (double_rnd (int8_to_float t / 127.0)))) = t"
proof -
  have "float_rnd (127 * float_rnd (double_rnd (int8_to_float t / 127.0))) = int8_to_float t"
    using held_value_int8 [of t] by (simp add: held_value_def)
  moreover have "\<lfloor>real_of_int (sint t)\<rfloor> = sint t" "\<lceil>real_of_int (sint t)\<rceil> = sint t"
    by (rule floor_of_int, rule ceiling_of_int)
  ultimately show ?thesis
    unfolding float_to_int8_def int8_to_float_def by simp
qed

subsection \<open>The control tick\<close>

lemma SetHome_eq: "SetHome s = s\<lparr>ceiltrack_pos := (CEILHOME_X, CEILHOME_Y, CEILHOME_THETA)\<rparr>"
  by (cases "ceiltrack_pos s") (simp add: SetHome_def Let_def)

lemma StartRecording_carstate: "carstate (snd (StartRecording E f k d)) = carstate d"
  by (simp add: StartRecording_def Let_def)

lemma StopRecording_carstate: "carstate (StopRecording d) = carstate d"
  by (simp add: StopRecording_def Let_def)

lemma deliver_carstate:
  "carstate (deliver E e d) =
     (carstate d)\<lparr>ceiltrack_pos := ceiltrack_pos (carstate (deliver E e d))\<rparr>"
  by (cases e)
     (simp_all add: OnDPadPress_def OnButtonPress_def OnButtonRelease_def OnAxisMove_def
        StartRecording_carstate StopRecording_carstate SetHome_eq Let_def)

lemma ReadInput_carstate:
  "carstate (ReadInput E es d) =
     (carstate d)\<lparr>ceiltrack_pos := ceiltrack_pos (carstate (ReadInput E es d))\<rparr>"
proof (induction es arbitrary: d)
  case Nil
  show ?case by simp
next
  case (Cons e es)
  have "carstate (ReadInput E (e # es) d) = carstate (ReadInput E es (deliver E e d))"
    by simp
  also have "\<dots> = (carstate (deliver E e d))
      \<lparr>ceiltrack_pos := ceiltrack_pos (carstate (ReadInput E es (deliver E e d)))\<rparr>"
    by (rule Cons.IH)
  also have "\<dots> = (carstate d)
      \<lparr>ceiltrack_pos := ceiltrack_pos (carstate (ReadInput E es (deliver E e d)))\<rparr>"
    by (subst deliver_carstate) simp
  finally show ?case by simp
qed

lemma after_input_carstate:
  "carstate (after_input E inp d) =
     (carstate d)\<lparr>ceiltrack_pos := ceiltrack_pos (carstate (after_input E inp d))\<rparr>"
  unfolding after_input_def using ReadInput_carstate [of E "js_events inp" d] by simp

lemma after_input_fields:
  "wheel_v (carstate (after_input E inp d)) = wheel_v (carstate d)"
  "wheel_dist (carstate (after_input E inp d)) = wheel_dist (carstate d)"
  "throttle (carstate (after_input E inp d)) = throttle (carstate d)"
  "steering (carstate (after_input E inp d)) = steering (carstate d)"
  by (subst after_input_carstate, simp)+

lemma estimate_fallback_guard:
  "estimate_wheel_v None dt s =
     (let w = float_rnd (double_rnd (double_rnd 0.95 *
                double_rnd (wheel_v s - double_rnd (double_rnd (double_rnd 9.8 * v3 (accel s) 1) * dt))))
      in s\<lparr>wheel_v := (if v3 (gyro s) 2 > 0.1
                        then float_rnd (double_rnd (w + double_rnd (double_rnd 0.05
                               * \<bar>float_rnd (v3 (accel s) 0 / v3 (gyro s) 2)\<bar>)))
                        else w)\<rparr>)"
  by (simp add: estimate_wheel_v_def Let_def float_cond_def fabsf_def bool_to_float_def)

lemma estimate_fields:
  "wheel_dist (estimate_wheel_v wm dt s) = wheel_dist s"
  "throttle (estimate_wheel_v wm dt s) = throttle s"
  "steering (estimate_wheel_v wm dt s) = steering s"
  "accel (estimate_wheel_v wm dt s) = accel s"
  "gyro (estimate_wheel_v wm dt s) = gyro s"
  "ceiltrack_pos (estimate_wheel_v wm dt s) = ceiltrack_pos s"
  by (simp_all add: estimate_wheel_v_def Let_def split: option.splits)

lemma UpdateFromSensors_carstate:
  "carstate (UpdateFromSensors E inp dt d) =
     estimate_wheel_v (wheel_motion inp) dt
       ((carstate (after_input E inp d))
          \<lparr>accel := imu_accel inp,
           gyro := v3_sub (imu_gyro inp) (gyro_bias (after_input E inp d))\<rparr>)"
  by (simp add: UpdateFromSensors_def after_input_def Let_def)

lemma OnControlFrame_carstate:
  "carstate (fst (OnControlFrame E inp dt d)) =
     (carstate (UpdateFromSensors E inp dt d))
       \<lparr>throttle :=
          float_to_int8 (float_rnd
            (127 * fst (snd (call_GetControl E dt (UpdateFromSensors E inp dt d))))),
        steering :=
          float_to_int8 (float_rnd
            (127 * fst (snd (snd (call_GetControl E dt (UpdateFromSensors E inp dt d))))))\<rparr>"
  by (simp add: OnControlFrame_def Let_def case_prod_beta)

lemma deliver_car_controls: "car_controls (deliver E e d) = car_controls d"
  by (cases e)
     (simp_all add: OnDPadPress_def OnButtonPress_def OnButtonRelease_def OnAxisMove_def
        StartRecording_def StopRecording_def Let_def)

lemma ReadInput_car_controls: "car_controls (ReadInput E es d) = car_controls d"
  by (induction es arbitrary: d) (simp_all add: deliver_car_controls)

lemma UpdateFromSensors_car_controls:
  "car_controls (UpdateFromSensors E inp dt d) = car_controls d"
  by (simp add: UpdateFromSensors_def Let_def ReadInput_car_controls)

lemma UpdateFromSensors_commands:
  "throttle (carstate (UpdateFromSensors E inp dt d)) = throttle (carstate d)"
  "steering (carstate (UpdateFromSensors E inp dt d)) = steering (carstate d)"
  by (simp_all add: UpdateFromSensors_carstate estimate_fields after_input_fields)

lemma OnControlFrame_car_controls:
  "\<not> fst (call_GetControl E dt (UpdateFromSensors E inp dt d)) \<Longrightarrow>
   car_controls (fst (OnControlFrame E inp dt d)) = car_controls (UpdateFromSensors E inp dt d)"
  by (simp add: OnControlFrame_def Let_def case_prod_beta)

text \<open>A fallback tick without acceleration: the product by \<^verbatim>\<open>0.95\<close>, rounded; the
  correction, when the guard lets it through, adds the rounded zero.\<close>

lemma zero_accel_step:
  assumes "wheel_motion inp = None" "imu_accel inp = (0, 0, 0)"
    and "float_rnd (wheel_v (carstate d)) = wheel_v (carstate d)"
  shows "wheel_v (carstate (fst (OnControlFrame E inp dt d)))
         = float_rnd (double_rnd (double_rnd 0.95 * wheel_v (carstate d)))"
proof -
  have dw: "double_rnd (wheel_v (carstate d)) = wheel_v (carstate d)"
    by (rule float_in_double [OF assms(3)])
  show ?thesis
    using assms(1,2)
    by (simp add: OnControlFrame_carstate UpdateFromSensors_carstate estimate_fallback_guard
          after_input_fields Let_def float_rnd_0 double_rnd_0 dw double_float float_rnd_idem)
qed

lemma zero_accel_step_float:
  assumes "wheel_motion inp = None" "imu_accel inp = (0, 0, 0)"
    and "float_rnd (wheel_v (carstate d)) = wheel_v (carstate d)"
  shows "float_rnd (wheel_v (carstate (fst (OnControlFrame E inp dt d))))
         = wheel_v (carstate (fst (OnControlFrame E inp dt d)))"
  unfolding zero_accel_step [OF assms] by (rule float_rnd_idem)

text \<open>Whatever the readings are, a fallback tick stores a \<^verbatim>\<open>float\<close>.\<close>

lemma fallback_stores_float:
  assumes "wheel_motion inp = None"
  shows "float_rnd (wheel_v (carstate (fst (OnControlFrame E inp dt d))))
         = wheel_v (carstate (fst (OnControlFrame E inp dt d)))"
  using assms
  by (simp add: OnControlFrame_carstate UpdateFromSensors_carstate estimate_fallback_guard
        Let_def float_rnd_idem)

lemma trace_bounded:
  assumes "\<forall>(inp, dt) \<in> set ts. wheel_motion inp = None \<and> imu_accel inp = (0, 0, 0)"
    and "float_rnd (wheel_v (carstate d)) = wheel_v (carstate d)"
  shows "\<forall>w \<in> set (wheel_v_trace E ts d). \<bar>w\<bar> \<le> \<bar>wheel_v (carstate d)\<bar>"
  using assms
proof (induction ts arbitrary: d)
  case Nil
  then show ?case by simp
next
  case (Cons a ts)
  obtain inp dt where a: "a = (inp, dt)" by (cases a)
  let ?d = "fst (OnControlFrame E inp dt d)"
  from Cons.prems a have h: "wheel_motion inp = None" "imu_accel inp = (0, 0, 0)" by auto
  have step: "wheel_v (carstate ?d) = float_rnd (double_rnd (double_rnd 0.95 * wheel_v (carstate d)))"
    by (rule zero_accel_step [OF h Cons.prems(2)])
  have fl: "float_rnd (wheel_v (carstate ?d)) = wheel_v (carstate ?d)"
    by (rule zero_accel_step_float [OF h Cons.prems(2)])
  have "\<forall>w \<in> set (wheel_v_trace E ts ?d). \<bar>w\<bar> \<le> \<bar>wheel_v (carstate ?d)\<bar>"
    using Cons.IH [OF _ fl] Cons.prems(1) by simp
  moreover have "\<bar>wheel_v (carstate ?d)\<bar> \<le> \<bar>wheel_v (carstate d)\<bar>"
    unfolding step by (rule decay_le [OF Cons.prems(2)])
  ultimately show ?case using a by fastforce
qed

lemma trace_length: "length (wheel_v_trace E ts d) = Suc (length ts)"
  by (induction ts arbitrary: d) auto

text \<open>The smallest positive \<^verbatim>\<open>float\<close>, \<open>2 powi - 149\<close>, and its decay: the product with
  \<^verbatim>\<open>0.95\<close> rounds back to it.\<close>

lemma tiny_float: "float_rnd (1 / 2 ^ 149) = 1 / 2 ^ 149"
  unfolding float_rnd_def
  using round_to_subnormal [of "1 / 2 ^ 149" 149 24 "- 149"] by (simp add: rne_def)

lemma tiny_decay: "float_rnd (double_rnd (double_rnd 0.95 * (1 / 2 ^ 149))) = 1 / 2 ^ 149"
proof -
  define x :: real where "x = 4278419646001971 / 4503599627370496 * (1 / 2 ^ 149)"
  have c: "double_rnd 0.95 = 4278419646001971 / 4503599627370496"
    by (simp add: rnd_eval)
  have s: "x * 2 ^ 202 = real_of_int 8556839292003942"
    unfolding x_def by simp
  have a: "\<bar>x\<bar> = x" "x \<noteq> 0" unfolding x_def by simp_all
  have "round_to 53 (- 1074) x = real_of_int (rne (x * 2 ^ 202)) / 2 ^ 202"
    by (rule round_to_scaled) (simp_all only: a s, simp_all)
  also have "\<dots> = x"
    unfolding s rne_of_int unfolding x_def by simp
  finally have d: "double_rnd x = x" by (simp only: double_rnd_def)
  have "round_to 24 (- 149) x = real_of_int (rne (x * 2 ^ 149)) / 2 ^ 149"
    by (rule round_to_subnormal) (simp_all only: a, simp_all add: x_def)
  also have "rne (x * 2 ^ 149) = 1"
    unfolding x_def by (simp add: rne_def)
  finally have f: "float_rnd x = 1 / 2 ^ 149" by (simp add: float_rnd_def)
  show ?thesis unfolding c x_def [symmetric] d f ..
qed

lemma list3: "length xs = 3 \<Longrightarrow> xs = [xs ! 0, xs ! Suc 0, xs ! Suc (Suc 0)]"
  by (cases xs; cases "tl xs"; cases "tl (tl xs)") auto

lemma v3_sub_self: "v3_sub b b = (0, 0, 0)"
  by (cases b) (simp add: float_rnd_0)

lemma v3_sub_component: "v3 (v3_sub a b) i = float_rnd (v3 a i - v3 b i)"
  by (cases a, cases b) simp

lemma gyro_bias_OnControlFrame:
  "gyro_bias (fst (OnControlFrame E inp dt d)) = gyro_bias (after_input E inp d)"
  by (simp add: OnControlFrame_def UpdateFromSensors_def after_input_def Let_def case_prod_beta)

lemma deliver_gyro_last: "gyro_last (deliver E e d) = gyro_last d"
  by (cases e)
     (simp_all add: OnDPadPress_def OnButtonPress_def OnButtonRelease_def OnAxisMove_def
        StartRecording_def StopRecording_def Let_def)

lemma deliver_gyro_bias:
  "gyro_bias (deliver E e d) = gyro_bias d \<or> gyro_bias (deliver E e d) = gyro_last d"
  by (cases e)
     (simp_all add: OnDPadPress_def OnButtonPress_def OnButtonRelease_def OnAxisMove_def
        StartRecording_def StopRecording_def Let_def)

lemma ReadInput_bias_kept:
  "gyro_bias d = gyro_last d \<Longrightarrow>
   gyro_bias (ReadInput E es d) = gyro_last d \<and> gyro_last (ReadInput E es d) = gyro_last d"
proof (induction es arbitrary: d)
  case Nil
  then show ?case by simp
next
  case (Cons e es)
  have "gyro_bias (deliver E e d) = gyro_last (deliver E e d)"
    using deliver_gyro_bias [of E e d] deliver_gyro_last [of E e d] Cons.prems by auto
  from Cons.IH [OF this] show ?case by (simp add: deliver_gyro_last)
qed

lemma after_input_bias_kept:
  "gyro_bias d = gyro_last d \<Longrightarrow> gyro_bias (after_input E inp d) = gyro_last d"
  by (simp add: after_input_def ReadInput_bias_kept)

lemma press_H:
  "gyro_bias (OnButtonPress E (CHR ''H'') d) = gyro_last d"
  "gyro_last (OnButtonPress E (CHR ''H'') d) = gyro_last d"
  by (simp_all add: OnButtonPress_def Let_def)

lemma le32_length: "length (le32 w) = 4"
  by (simp add: le32_def)

lemma Serialize_eq:
  assumes "42 \<le> length buf"
  shows "Serialize fb s buf = Some (CarState_record fb s @ drop 42 buf, 42)"
proof -
  obtain n where n: "length buf = 42 + n"
    using assms le_iff_add by blast
  show ?thesis
    by (simp add: Serialize_def SerializedSize_def CarState_record_def CarState_fields_def
        memcpy_def ascii_def le32_def Let_def n)
qed

lemma rd32_le32: "rd32 (le32 w) = w"
  unfolding rd32_def le32_def
  apply (rule bit_word_eqI)
  subgoal for n
    apply (cases "n < 8"; cases "n < 16"; cases "n < 24")
    apply (simp_all add: bit_simps not_less)
    apply auto
    done
  done

lemma rd16_le16: "rd16 (le16 w) = w"
  unfolding rd16_def le16_def
  apply (rule bit_word_eqI)
  apply (auto simp: bit_simps not_less)
  done

lemma le16_length: "length (le16 w) = 2"
  by (simp add: le16_def)

lemma read_chunk_append:
  assumes "length tag = 4" "8 + length p < 2 ^ 32"
  shows "read_chunk (tag @ le32 (of_nat (8 + length p)) @ p @ rest) = Some (tag, p, rest)"
proof -
  have u: "unat (of_nat (8 + length p) :: uint32_t) = 8 + length p"
    using assms(2) by (simp add: unat_of_nat del: of_nat_add)
  have t: "take 4 (drop 4 (tag @ le32 (of_nat (8 + length p)) @ p @ rest)) = le32 (of_nat (8 + length p))"
    using assms(1) by (simp add: le32_length)
  show ?thesis
    unfolding read_chunk_def t rd32_le32 u Let_def
    using assms(1) by (simp add: le32_length)
qed

lemma read_chunk_whole:
  assumes "read_chunk bs = Some (tag, p, [])"
  shows "read_chunk (bs @ rest) = Some (tag, p, rest)"
proof -
  define size where "size = unat (rd32 (take 4 (drop 4 bs)))"
  from assms have l: "8 \<le> length bs" and s: "8 \<le> size" "size \<le> length bs"
    and t: "tag = take 4 bs" and p: "p = take (size - 8) (drop 8 bs)" and e: "drop size bs = []"
    unfolding read_chunk_def size_def [symmetric] Let_def
    by (auto split: if_splits)
  from e s have sl: "size = length bs" by simp
  have tk: "take 4 (drop 4 (bs @ rest)) = take 4 (drop 4 bs)" using l by simp
  have u: "unat (rd32 (take 4 (drop 4 (bs @ rest)))) = length bs"
    unfolding tk using sl by (simp only: size_def)
  show ?thesis
    unfolding read_chunk_def Let_def u using l t p sl by simp
qed

lemma CarState_record_length: "length (CarState_record fb s) = 42"
  by (simp add: CarState_record_def CarState_fields_def le32_length ascii_def)

lemma split_CarState_fields:
  "split_fields CarState_layout (concat (CarState_fields fb s)) = CarState_fields fb s"
  by (simp add: CarState_layout_def CarState_fields_def le32_def)

lemma parse_CarState_record:
  "parse_CarState (CarState_record fb s @ rest) = Some (CarState_fields fb s)"
proof -
  have l: "length (concat (CarState_fields fb s)) = 34"
    by (simp add: CarState_fields_def le32_length)
  have "read_chunk (ascii ''CSt1'' @ le32 (of_nat (8 + length (concat (CarState_fields fb s))))
          @ concat (CarState_fields fb s) @ rest)
        = Some (ascii ''CSt1'', concat (CarState_fields fb s), rest)"
    by (rule read_chunk_append) (simp_all add: ascii_def l)
  then have "read_chunk (CarState_record fb s @ rest)
        = Some (ascii ''CSt1'', concat (CarState_fields fb s), rest)"
    by (simp add: CarState_record_def l)
  moreover have "sum_list CarState_layout = 34"
    by (simp add: CarState_layout_def)
  ultimately show ?thesis
    by (simp add: parse_CarState_def l split_CarState_fields)
qed

lemma ascii_length: "length (ascii s) = length s"
  by (simp add: ascii_def)

lemma memcpy_seg:
  assumes "length pre = off" "length src = length old"
  shows "memcpy (pre @ old @ rest) off src = Some (pre @ src @ rest)"
  using assms by (simp add: memcpy_def)

lemma sint_of_nat_small: "n < 2 ^ 31 \<Longrightarrow> sint (of_nat n :: uint32_t) = int n"
proof -
  assume n: "n < 2 ^ 31"
  have "(of_nat n :: uint32_t) = word_of_int (int n)" by simp
  then have "sint (of_nat n :: uint32_t) = signed_take_bit 31 (int n)"
    by (simp only: sint_sbintrunc') simp
  also have "\<dots> = int n"
    by (rule signed_take_bit_int_eq_self) (use n in simp_all)
  finally show ?thesis .
qed

lemma QueueRecordingData_eq:
  assumes c: "int (length (ctl_record E buf d)) = ctl_SerializedSize E (controller d)"
    and sz: "68 + length (ctl_record E buf d) + length buf < 2 ^ 31"
  shows "QueueRecordingData E t buf d =
         Some (d\<lparr>flush_entries := flush_entries d @
                 [(output_fd d, Some (CYCF_frame E t buf d), int (length (CYCF_frame E t buf d)))]\<rparr>)"
proof -
  define cb where "cb = ctl_record E buf d"
  have cbx: "ctl_Serialize E (controller d)
               (ctl_SerializedSize E (controller d) + int (length buf) + 10) = cb"
    by (simp add: cb_def ctl_record_def)
  define m where "m = length cb"
  define L where "L = length buf"
  define YL :: uint32_t where "YL = of_nat (length buf) + 8 + 2"
  define CL :: uint32_t where "CL = 8 + 8 + word_of_int SerializedSize
      + word_of_int (ctl_SerializedSize E (controller d)) + YL"
  define z :: "nat \<Rightarrow> uint8_t list" where "z = (\<lambda>k. replicate k 0)"
  define h1 where "h1 = ascii ''CYCF''"
  define h2 where "h2 = le32 CL"
  define h3 where "h3 = le32 (word_of_int (tv_sec t))"
  define h4 where "h4 = le32 (word_of_int (tv_usec t))"
  define cs where "cs = CarState_record (float_bits E) (carstate d)"
  define y1 where "y1 = ascii ''Y420''"
  define y2 where "y2 = le32 YL"
  define y3 where "y3 = le16 (640 :: uint16_t)"
  have lens: "length h1 = 4" "length h2 = 4" "length h3 = 4" "length h4 = 4" "length cs = 42"
    "length y1 = 4" "length y2 = 4" "length y3 = 2" "length cb = m" "length buf = L"
    "\<And>k. length (z k) = k"
    by (simp_all add: h1_def h2_def h3_def h4_def cs_def y1_def y2_def y3_def m_def L_def z_def
          ascii_length le32_length le16_length CarState_record_length)
  have csz: "ctl_SerializedSize E (controller d) = int m"
    using c by (simp add: cb_def m_def)
  have ylw: "YL = of_nat (L + 10)"
    by (simp add: YL_def L_def)
  have clw: "CL = of_nat (68 + m + L)"
    by (simp add: CL_def ylw csz SerializedSize_def)
  have sz31: "68 + m + L < 2 ^ 31"
    using sz by (simp add: cb_def m_def L_def)
  then have sz32: "68 + m + L < 2 ^ 32" by simp
  have un: "unat CL = 68 + m + L"
    unfolding clw using sz32 by (simp add: unat_of_nat del: of_nat_add)
  have "CL - of_nat 16 = of_nat (52 + m + L)"
    unfolding clw by simp
  moreover have "52 + m + L < 2 ^ 31" using sz31 by simp
  ultimately have bs1: "sint (CL - of_nat 16) = int (52 + m + L)"
    by (simp only: sint_of_nat_small)
  have "CL - of_nat (16 + nat 42) = of_nat (10 + m + L)"
    unfolding clw by simp
  moreover have "10 + m + L < 2 ^ 31" using sz31 by simp
  ultimately have bs2: "sint (CL - of_nat (16 + nat 42)) = int (10 + m + L)"
    by (simp only: sint_of_nat_small)
  have ui: "uint CL = int (68 + m + L)"
    using un by (metis uint_nat)
  define B0 where "B0 = z 4 @ z 4 @ z 4 @ z 4 @ z 42 @ z m @ z 4 @ z 4 @ z 2 @ z L"
  define B1 where "B1 = h1 @ z 4 @ z 4 @ z 4 @ z 42 @ z m @ z 4 @ z 4 @ z 2 @ z L"
  define B2 where "B2 = h1 @ h2 @ z 4 @ z 4 @ z 42 @ z m @ z 4 @ z 4 @ z 2 @ z L"
  define B3 where "B3 = h1 @ h2 @ h3 @ z 4 @ z 42 @ z m @ z 4 @ z 4 @ z 2 @ z L"
  define B4 where "B4 = h1 @ h2 @ h3 @ h4 @ z 42 @ z m @ z 4 @ z 4 @ z 2 @ z L"
  define R5 where "R5 = cs @ drop 42 (drop 16 B4)"
  define B5 where "B5 = h1 @ h2 @ h3 @ h4 @ cs @ z m @ z 4 @ z 4 @ z 2 @ z L"
  define B6 where "B6 = h1 @ h2 @ h3 @ h4 @ cs @ cb @ z 4 @ z 4 @ z 2 @ z L"
  define B7 where "B7 = h1 @ h2 @ h3 @ h4 @ cs @ cb @ y1 @ z 4 @ z 2 @ z L"
  define B8 where "B8 = h1 @ h2 @ h3 @ h4 @ cs @ cb @ y1 @ y2 @ z 2 @ z L"
  define B9 where "B9 = h1 @ h2 @ h3 @ h4 @ cs @ cb @ y1 @ y2 @ y3 @ z L"
  define B10 where "B10 = h1 @ h2 @ h3 @ h4 @ cs @ cb @ y1 @ y2 @ y3 @ buf"
  have "68 + m + L = 4 + (4 + (4 + (4 + (42 + (m + (4 + (4 + (2 + L))))))))"
    by simp
  then have b0: "replicate (unat CL) 0 = B0"
    unfolding un B0_def z_def by (simp only: replicate_add)
  have m1: "memcpy B0 0 h1 = Some B1"
    unfolding B0_def B1_def
    using memcpy_seg [of "[]" 0 h1 "z 4" "z 4 @ z 4 @ z 4 @ z 42 @ z m @ z 4 @ z 4 @ z 2 @ z L"]
    by (simp add: lens)
  have m2: "memcpy B1 4 h2 = Some B2"
    unfolding B1_def B2_def
    using memcpy_seg [of h1 4 h2 "z 4" "z 4 @ z 4 @ z 42 @ z m @ z 4 @ z 4 @ z 2 @ z L"]
    by (simp add: lens)
  have m3: "memcpy B2 8 h3 = Some B3"
    unfolding B2_def B3_def
    using memcpy_seg [of "h1 @ h2" 8 h3 "z 4" "z 4 @ z 42 @ z m @ z 4 @ z 4 @ z 2 @ z L"]
    by (simp add: lens)
  have m4: "memcpy B3 12 h4 = Some B4"
    unfolding B3_def B4_def
    using memcpy_seg [of "h1 @ h2 @ h3" 12 h4 "z 4" "z 42 @ z m @ z 4 @ z 4 @ z 2 @ z L"]
    by (simp add: lens)
  have d4: "drop 16 B4 = z 42 @ z m @ z 4 @ z 4 @ z 2 @ z L" and t4: "take 16 B4 = h1 @ h2 @ h3 @ h4"
    unfolding B4_def by (simp_all add: lens)
  have tk: "take (nat (int (52 + m + L))) (drop 16 B4) = drop 16 B4"
    and dr: "drop (16 + nat (int (52 + m + L))) B4 = []"
    unfolding B4_def by (simp_all add: lens)
  have s5: "Serialize (float_bits E) (carstate d) (drop 16 B4) = Some (R5, 42)"
    unfolding R5_def cs_def by (rule Serialize_eq) (simp add: d4 lens)
  have t5: "take 16 B4 @ R5 @ [] = B5"
    unfolding R5_def d4 t4 B5_def by (simp add: lens)
  have arg: "int (10 + m + L)
             = ctl_SerializedSize E (controller d) + int (length buf) + 10"
    unfolding csz by (simp add: L_def)
  have m6: "memcpy B5 (16 + nat 42) cb = Some B6"
    unfolding B5_def B6_def
    using memcpy_seg [of "h1 @ h2 @ h3 @ h4 @ cs" "16 + nat 42" cb "z m" "z 4 @ z 4 @ z 2 @ z L"]
    by (simp add: lens)
  have m7: "memcpy B6 (16 + nat 42 + length cb) y1 = Some B7"
    unfolding B6_def B7_def
    using memcpy_seg [of "h1 @ h2 @ h3 @ h4 @ cs @ cb" "16 + nat 42 + length cb" y1 "z 4"
                         "z 4 @ z 2 @ z L"]
    by (simp add: lens)
  have m8: "memcpy B7 (16 + nat 42 + length cb + 4) y2 = Some B8"
    unfolding B7_def B8_def
    using memcpy_seg [of "h1 @ h2 @ h3 @ h4 @ cs @ cb @ y1" "16 + nat 42 + length cb + 4" y2 "z 4"
                         "z 2 @ z L"]
    by (simp add: lens)
  have m9: "memcpy B8 (16 + nat 42 + length cb + 8) y3 = Some B9"
    unfolding B8_def B9_def
    using memcpy_seg [of "h1 @ h2 @ h3 @ h4 @ cs @ cb @ y1 @ y2" "16 + nat 42 + length cb + 8" y3
                         "z 2" "z L"]
    by (simp add: lens)
  have m10: "memcpy B9 (16 + nat 42 + length cb + 10) buf = Some B10"
    unfolding B9_def B10_def
    using memcpy_seg [of "h1 @ h2 @ h3 @ h4 @ cs @ cb @ y1 @ y2 @ y3"
                         "16 + nat 42 + length cb + 10" buf "z L" "[]"]
    by (simp add: lens)
  have frame: "CYCF_frame E t buf d = B10"
    unfolding CYCF_frame_def Y420_chunk_def cb_def [symmetric] B10_def
      h1_def h2_def h3_def h4_def cs_def y1_def y2_def y3_def clw ylw
    by (simp add: lens ac_simps)
  have flen: "int (length B10) = uint CL"
    unfolding ui B10_def by (simp add: lens)
  show ?thesis
    unfolding QueueRecordingData_def Let_def YL_def [symmetric]
    unfolding CL_def [symmetric]
    unfolding b0 h1_def [symmetric] h2_def [symmetric] h3_def [symmetric] h4_def [symmetric]
      y1_def [symmetric] y2_def [symmetric] y3_def [symmetric]
    by (simp only: m1 m2 m3 m4 bs1 tk dr s5 t5 bs2 arg cbx m6 m7 m8 m9 m10 frame flen
          bind.bind_lunit prod.case)
qed

lemma Serialize_Some:
  assumes "Serialize fb s buf = Some (r, n)"
  shows "42 \<le> length buf \<and> r = CarState_record fb s @ drop 42 buf \<and> n = 42"
proof (cases "42 \<le> length buf")
  case True
  with assms Serialize_eq [OF True, of fb s] show ?thesis by simp
next
  case False
  then have "Serialize fb s buf = None"
    by (simp add: Serialize_def SerializedSize_def)
  with assms show ?thesis by simp
qed

lemma memcpy_Some:
  assumes "memcpy b off src = Some b'"
  shows "length b' = length b \<and> (\<forall>k \<le> off. take k b' = take k b)"
  using assms by (auto simp: memcpy_def split: if_splits)

lemma record_wheel_dist:
  "take 4 (drop (8 + 26) (CarState_record fb s)) = le32 (fb (wheel_dist s))"
  by (simp add: CarState_record_def CarState_fields_def ascii_def le32_def)

lemma QueueRecordingData_Some:
  assumes "QueueRecordingData E t buf d = Some d'"
  shows "\<exists>b n. d' = d\<lparr>flush_entries := flush_entries d @ [(output_fd d, Some b, n)]\<rparr>
           \<and> take 42 (drop 16 b) = CarState_record (float_bits E) (carstate d)"
proof -
  from assms obtain b4 r n b6 b7 b8 b9 b10 k k5 t5 o6 o7 o8 o9 o10 s6 s7 s8 s9 s10 where
    s5: "Serialize (float_bits E) (carstate d) (take k5 (drop 16 b4)) = Some (r, n)"
    and m6: "memcpy (take 16 b4 @ r @ t5) o6 s6 = Some b6" and o6: "16 + nat n \<le> o6"
    and m7: "memcpy b6 o7 s7 = Some b7" and o7: "16 + nat n \<le> o7"
    and m8: "memcpy b7 o8 s8 = Some b8" and o8: "16 + nat n \<le> o8"
    and m9: "memcpy b8 o9 s9 = Some b9" and o9: "16 + nat n \<le> o9"
    and m10: "memcpy b9 o10 s10 = Some b10" and o10: "16 + nat n \<le> o10"
    and d': "d' = d\<lparr>flush_entries := flush_entries d @ [(output_fd d, Some b10, k)]\<rparr>"
    unfolding QueueRecordingData_def Let_def
    by (fastforce simp: bind_eq_Some_conv)
  from Serialize_Some [OF s5]
  have l: "42 \<le> length (take k5 (drop 16 b4))"
    and r: "r = CarState_record (float_bits E) (carstate d) @ drop 42 (take k5 (drop 16 b4))"
    and n: "n = 42" by auto
  let ?cs = "CarState_record (float_bits E) (carstate d)"
  have l4: "length (take 16 b4) = 16" using l by (auto simp: min_def)
  have t5: "take 58 (take 16 b4 @ r @ t5) = take 16 b4 @ ?cs"
    unfolding r using l4 by (simp add: CarState_record_length)
  have k6: "take 58 b6 = take 58 (take 16 b4 @ r @ t5)"
    using memcpy_Some [OF m6] o6 n by simp
  have k7: "take 58 b7 = take 58 b6" using memcpy_Some [OF m7] o7 n by simp
  have k8: "take 58 b8 = take 58 b7" using memcpy_Some [OF m8] o8 n by simp
  have k9: "take 58 b9 = take 58 b8" using memcpy_Some [OF m9] o9 n by simp
  have k10: "take 58 b10 = take 58 b9" using memcpy_Some [OF m10] o10 n by simp
  have "take 58 b10 = take 16 b4 @ ?cs"
    using k6 k7 k8 k9 k10 t5 by simp
  then have "drop 16 (take 58 b10) = ?cs"
    using l4 by simp
  then have "take 42 (drop 16 b10) = ?cs"
    by (simp add: drop_take)
  with d' show ?thesis by blast
qed

text \<open>A frame of \<open>2^31 + 16\<close> bytes or more, still below \<open>2^32\<close>: the size handed to
  \<open>Serialize\<close> is negative and nothing is queued.\<close>

lemma QueueRecordingData_too_long:
  assumes "ctl_SerializedSize E (controller d) = int m"
    and "2 ^ 31 + 16 \<le> 68 + m + length buf" "68 + m + length buf < 2 ^ 32"
  shows "QueueRecordingData E t buf d = None"
proof -
  define CL :: uint32_t where "CL = of_nat (68 + m + length buf)"
  have cl: "8 + 8 + word_of_int SerializedSize + word_of_int (ctl_SerializedSize E (controller d))
            + (of_nat (length buf) + 8 + 2) = CL"
    by (simp add: CL_def assms(1) SerializedSize_def)
  have "CL - of_nat 16 = word_of_int (int (52 + m + length buf))"
    by (simp add: CL_def)
  then have "sint (CL - of_nat 16) = signed_take_bit 31 (int (52 + m + length buf))"
    by (simp only: sint_sbintrunc') simp
  also have "\<dots> = int (52 + m + length buf) - 2 ^ 32"
  proof -
    have "signed_take_bit 31 (int (52 + m + length buf) - 2 ^ 32) = int (52 + m + length buf) - 2 ^ 32"
      by (rule signed_take_bit_int_eq_self) (use assms(2,3) in simp_all)
    moreover have "signed_take_bit 31 (int (52 + m + length buf) - 2 ^ 32)
                   = signed_take_bit 31 (int (52 + m + length buf))"
    proof -
      have "(int (52 + m + length buf) - 2 ^ 32) mod 2 ^ 32 = int (52 + m + length buf) mod 2 ^ 32"
        by (rule minus_mod_self2)
      then have "take_bit (Suc 31) (int (52 + m + length buf) - 2 ^ 32)
                 = take_bit (Suc 31) (int (52 + m + length buf))"
        by (simp add: take_bit_eq_mod)
      then show ?thesis by (simp only: signed_take_bit_eq_iff_take_bit_eq)
    qed
    ultimately show ?thesis by simp
  qed
  finally have "sint (CL - of_nat 16) < 0" using assms(3) by simp
  then have z: "nat (sint (CL - of_nat 16)) = 0" by simp
  have n: "Serialize (float_bits E) (carstate d) [] = None"
    by (simp add: Serialize_def SerializedSize_def)
  show ?thesis
    unfolding QueueRecordingData_def Let_def cl z take_0 n
    by (simp add: bind_eq_None_conv)
qed

lemma queued_frames_append:
  "queued_frames (d\<lparr>flush_entries := flush_entries d @ [(fd, bo, n)]\<rparr>)
     = queued_frames d @ (case bo of None \<Rightarrow> [] | Some b \<Rightarrow> [b])"
  by (simp add: queued_frames_def List.map_filter_def split: option.splits)

lemma StopRecording_frames: "queued_frames (StopRecording d) = queued_frames d"
  by (simp add: StopRecording_def Let_def queued_frames_def List.map_filter_def)

lemma StartRecording_frames: "queued_frames (snd (StartRecording E f k d)) = queued_frames d"
  by (simp add: StartRecording_def Let_def queued_frames_def)

lemma deliver_frames: "queued_frames (deliver E e d) = queued_frames d"
  by (cases e)
     (simp_all add: OnDPadPress_def OnButtonPress_def OnButtonRelease_def OnAxisMove_def
        StartRecording_frames StopRecording_frames Let_def, simp_all add: queued_frames_def)

lemma ReadInput_frames: "queued_frames (ReadInput E es d) = queued_frames d"
  by (induction es arbitrary: d) (simp_all add: deliver_frames)

lemma OnControlFrame_frames: "queued_frames (fst (OnControlFrame E inp dt d)) = queued_frames d"
proof -
  have "flush_entries (fst (OnControlFrame E inp dt d)) = flush_entries (after_input E inp d)"
    by (simp add: OnControlFrame_def UpdateFromSensors_def after_input_def Let_def case_prod_beta)
  then have "queued_frames (fst (OnControlFrame E inp dt d)) = queued_frames (after_input E inp d)"
    by (simp add: queued_frames_def)
  then show ?thesis by (simp add: after_input_def ReadInput_frames)
qed

lemma OnControlFrame_wheel_dist:
  "wheel_dist (carstate (fst (OnControlFrame E inp dt d))) = wheel_dist (carstate d)"
  by (simp add: OnControlFrame_carstate UpdateFromSensors_carstate estimate_fields
        after_input_fields)

lemma deliver_wheel_dist: "wheel_dist (carstate (deliver E e d)) = wheel_dist (carstate d)"
  by (subst deliver_carstate) simp

lemma UpdateFromCamera_keeps:
  "wheel_dist (carstate (UpdateFromCamera E buf dt d)) = wheel_dist (carstate d)"
  "flush_entries (UpdateFromCamera E buf dt d) = flush_entries d"
  by (simp_all add: UpdateFromCamera_def Let_def case_prod_beta)

lemma OnCameraFrame_inv:
  assumes "odometry_zero E d" "OnCameraFrame E t buf d = Some d'"
  shows "odometry_zero E d'"
proof -
  define d1 where "d1 = UpdateFromCamera E buf
      (float_rnd (double_rnd
         (double_rnd (real_of_int (tv_sec t - tv_sec (last_t (d\<lparr>frame := frame d + 1\<rparr>))))
          + double_rnd
              (double_rnd (real_of_int (tv_usec t - tv_usec (last_t (d\<lparr>frame := frame d + 1\<rparr>))))
               * double_rnd 0.000001))))
      (d\<lparr>frame := frame d + 1\<rparr>)"
  have w1: "wheel_dist (carstate d1) = 0" and f1: "queued_frames d1 = queued_frames d"
    using assms(1) by (simp_all add: d1_def UpdateFromCamera_keeps odometry_zero_def queued_frames_def)
  from assms(2) obtain d2 where
    d2: "(if IsRecording d1 \<and> frame d1 > frameskip d1
          then QueueRecordingData E t buf (d1\<lparr>frame := 0\<rparr>) else Some d1) = Some d2"
    and d': "d' = d2\<lparr>last_t := t\<rparr>"
    unfolding OnCameraFrame_def Let_def d1_def [symmetric]
    by (auto simp: bind_eq_Some_conv)
  have "odometry_zero E d2"
  proof (cases "IsRecording d1 \<and> frame d1 > frameskip d1")
    case False
    with d2 have "d2 = d1" by simp
    then show ?thesis using w1 f1 assms(1) by (simp add: odometry_zero_def)
  next
    case True
    with d2 have "QueueRecordingData E t buf (d1\<lparr>frame := 0\<rparr>) = Some d2" by simp
    from QueueRecordingData_Some [OF this] obtain b n where
      e: "d2 = d1\<lparr>frame := 0, flush_entries := flush_entries d1 @ [(output_fd d1, Some b, n)]\<rparr>"
      and b: "take 42 (drop 16 b) = CarState_record (float_bits E) (carstate d1)"
      by auto
    have "take 4 (drop (16 + 8 + 26) b) = take 4 (drop (8 + 26) (take 42 (drop 16 b)))"
      by (simp add: drop_take add.commute)
    also have "\<dots> = le32 (float_bits E (wheel_dist (carstate d1)))"
      unfolding b by (rule record_wheel_dist)
    finally have wb: "take 4 (drop (16 + 8 + 26) b) = le32 (float_bits E 0)"
      using w1 by simp
    have "queued_frames d2 = queued_frames d @ [b]"
      unfolding e using f1 by (simp add: queued_frames_def List.map_filter_def)
    moreover have "wheel_dist (carstate d2) = 0" unfolding e using w1 by simp
    ultimately show ?thesis using assms(1) wb by (simp add: odometry_zero_def)
  qed
  then show ?thesis unfolding d' by (simp add: odometry_zero_def queued_frames_def)
qed

lemma step_inv:
  assumes "odometry_zero E d" "step E x d = Some d'"
  shows "odometry_zero E d'"
proof (cases x)
  case (CameraFrame t buf)
  with assms show ?thesis using OnCameraFrame_inv by simp
next
  case (ControlFrame inp dt)
  with assms show ?thesis
    by (auto simp: odometry_zero_def OnControlFrame_frames OnControlFrame_wheel_dist)
next
  case (Input e)
  with assms show ?thesis
    by (auto simp: odometry_zero_def deliver_frames deliver_wheel_dist)
next
  case (StartRec f k)
  with assms show ?thesis
    by (auto simp: odometry_zero_def StartRecording_frames StartRecording_carstate)
next
  case StopRec
  with assms show ?thesis
    by (auto simp: odometry_zero_def StopRecording_frames StopRecording_carstate)
qed

lemma run_inv:
  "odometry_zero E d \<Longrightarrow> run E ops d = Some d' \<Longrightarrow> odometry_zero E d'"
proof (induction ops arbitrary: d)
  case Nil
  then show ?case by simp
next
  case (Cons x xs)
  from Cons.prems(2) obtain d1 where s: "step E x d = Some d1" and r: "run E xs d1 = Some d'"
    by (auto split: option.splits)
  from Cons.IH [OF step_inv [OF Cons.prems(1) s] r] show ?case .
qed

lemma init_inv: "odometry_zero E (Driver_init E js g0 p0 c0 cfg0)"
  by (simp add: odometry_zero_def Driver_init_def CarState_init_def SetHome_eq queued_frames_def
        List.map_filter_def)

lemma neg_record:
  "CarState_record sample_float_bits neg_carstate =
     [67, 83, 116, 49, 42, 0, 0, 0, 156, 219, 0, 0, 128, 63, 0, 0, 0, 0, 0, 0, 0, 64,
      0, 0, 0, 0, 0, 0, 0, 0, 0, 0, 0, 191, 0, 0, 0, 0, 0, 0, 128, 63]"
  by (simp add: CarState_record_def CarState_fields_def neg_carstate_def sample_float_bits_def
        ascii_def le32_def)

lemma neg_fields:
  "CarState_fields sample_float_bits neg_carstate =
     [[156], [219], [0, 0, 128, 63], [0, 0, 0, 0], [0, 0, 0, 64], [0, 0, 0, 0], [0, 0, 0, 0],
      [0, 0, 0, 191], [0, 0, 0, 0], [0, 0, 128, 63]]"
  by (simp add: CarState_fields_def neg_carstate_def sample_float_bits_def le32_def)

lemma CYCF_frame_eq:
  "CYCF_frame E t buf d =
     ascii ''CYCF'' @ le32 (of_nat (8 + (60 + length (ctl_record E buf d) + length buf)))
     @ (le32 (word_of_int (tv_sec t)) @ le32 (word_of_int (tv_usec t))
        @ CarState_record (float_bits E) (carstate d) @ ctl_record E buf d @ Y420_chunk buf) @ []"
  by (simp add: CYCF_frame_def ac_simps)

lemma CYCF_payload_length:
  "length (le32 (word_of_int (tv_sec t)) @ le32 (word_of_int (tv_usec t))
        @ CarState_record (float_bits E) (carstate d) @ ctl_record E buf d @ Y420_chunk buf)
   = 60 + length (ctl_record E buf d) + length buf"
  by (simp add: le32_length CarState_record_length Y420_chunk_def ascii_length le16_length)

lemma Y420_chunk_eq:
  "Y420_chunk buf = ascii ''Y420'' @ le32 (of_nat (8 + length (le16 640 @ buf))) @ (le16 640 @ buf) @ []"
  by (simp add: Y420_chunk_def le16_length ac_simps)

lemma sample_ctl_record: "ctl_record sample_env buf d = ascii ''ctl1'' @ le32 8"
  by (simp add: ctl_record_def sample_env_def)

lemma rec_driver_fields:
  "output_fd rec_driver = 3" "flush_entries rec_driver = []" "controller rec_driver = 0"
  "carstate rec_driver = CarState_init (0, 0, 0)" "frame rec_driver = 0" "frameskip rec_driver = 0"
  by (simp_all add: rec_driver_def StartRecording_def open_destination_def Let_def
        sample_driver_def Driver_init_def sample_env_def)

lemma sample_frame:
  "CYCF_frame sample_env sample_time [1, 2, 3] rec_driver =
     [67, 89, 67, 70, 79, 0, 0, 0, 0, 16, 94, 95, 144, 208, 3, 0,
      67, 83, 116, 49, 42, 0, 0, 0, 0, 0, 0, 0, 0, 0, 0, 0, 0, 0, 0, 0, 0, 0, 0, 0, 0, 0,
      0, 0, 0, 0, 0, 0, 0, 0, 0, 0, 0, 0, 0, 0, 0, 0,
      99, 116, 108, 49, 8, 0, 0, 0,
      89, 52, 50, 48, 13, 0, 0, 0, 128, 2, 1, 2, 3]"
  unfolding CYCF_frame_def sample_ctl_record
  by (simp add: Y420_chunk_def CarState_record_def CarState_fields_def Let_def
        rec_driver_fields CarState_init_def SetHome_eq sample_time_def
        sample_env_def sample_float_bits_def ascii_def le32_def le16_def)

lemma sample_QueueRecordingData:
  assumes "length buf < 1000"
  shows "\<exists>d'. QueueRecordingData sample_env t buf d = Some d'"
proof -
  have "QueueRecordingData sample_env t buf d
           = Some (d\<lparr>flush_entries := flush_entries d @
                [(output_fd d, Some (CYCF_frame sample_env t buf d),
                  int (length (CYCF_frame sample_env t buf d)))]\<rparr>)"
    by (rule QueueRecordingData_eq)
       (use assms in \<open>simp_all add: sample_ctl_record ascii_length le32_length\<close>,
        simp add: sample_env_def)
  then show ?thesis by blast
qed

lemma sample_OnCameraFrame:
  assumes "length buf < 1000"
  shows "\<exists>d'. OnCameraFrame sample_env t buf d = Some d'"
  unfolding OnCameraFrame_def Let_def
  using sample_QueueRecordingData [OF assms]
  by (auto simp: bind_eq_Some_conv)

section \<open>The claims\<close>

text \<open>
  C8.  For every prior pose, \<^verbatim>\<open>SetHome()\<close> sets the pose to the configured home
  coordinates \<open>(-3.03, 0.73, 0)\<close> and changes no other field of the vehicle state; the
  result does not mention the gyro bias, and the call \<^verbatim>\<open>carstate_.SetHome()\<close> leaves the
  bias of the driver as it was.
\<close>

theorem SetHome_sets_home_only:
  "ceiltrack_pos (SetHome s) = (- 3.03, 0.73, 0)
   \<and> accel (SetHome s) = accel s \<and> gyro (SetHome s) = gyro s
   \<and> throttle (SetHome s) = throttle s \<and> steering (SetHome s) = steering s
   \<and> wheel_dist (SetHome s) = wheel_dist s \<and> wheel_v (SetHome s) = wheel_v s
   \<and> SetHome s = s\<lparr>ceiltrack_pos := (CEILHOME_X, CEILHOME_Y, CEILHOME_THETA)\<rparr>
   \<and> gyro_bias (d\<lparr>carstate := SetHome (carstate d)\<rparr>) = gyro_bias d"
  by (simp add: SetHome_eq CEILHOME_X_def CEILHOME_Y_def CEILHOME_THETA_def)

text \<open>
  C4.  On a control tick on which the wheel interface reports a motion \<open>(ds, v)\<close>, the
  wheel speed stored in the vehicle state is \<open>v\<close>, whatever \<open>dt\<close>, the acceleration, the
  gyro reading and the previous state are.
\<close>

theorem wheel_signal_passes_through:
  "wheel_motion inp = Some (ds, v) \<Longrightarrow>
   wheel_v (carstate (fst (OnControlFrame E inp dt d))) = v"
  by (simp add: OnControlFrame_carstate UpdateFromSensors_carstate estimate_wheel_v_def)

theorem wheel_signal_passes_through_witness:
  "wheel_motion (sample_tick\<lparr>imu_accel := (1, 2, 0), wheel_motion := Some (0.25, 1.5)\<rparr>)
     = Some (0.25, 1.5)
   \<and> wheel_v (carstate (fst (OnControlFrame sample_env
        (sample_tick\<lparr>imu_accel := (1, 2, 0), wheel_motion := Some (0.25, 1.5)\<rparr>) 0.01
        sample_driver))) = 1.5"
  using wheel_signal_passes_through
    [of "sample_tick\<lparr>imu_accel := (1, 2, 0), wheel_motion := Some (0.25, 1.5)\<rparr>"
        "0.25" "1.5" sample_env "0.01" sample_driver]
  by (simp add: sample_tick_def)

text \<open>
  C1 (the code at a negative yaw rate).  Fallback tick, corrected yaw rate \<open>-0.5\<close>, whose
  magnitude exceeds \<open>0.1\<close>, longitudinal acceleration \<open>1\<close>: the guard
  \<^verbatim>\<open>fabsf(gyro[2] > 0.1)\<close> is false and the wheel speed stays \<open>0\<close>; the correction
  \<open>0.05 * |1 / -0.5| = 0.1\<close> is not added.
\<close>

theorem fallback_negative_yaw_not_corrected:
  "wheel_v (carstate (fst (OnControlFrame E
      \<lparr>js_events = [], imu_accel = (1, 0, 0), imu_gyro = (0, 0, - 0.5), wheel_motion = None\<rparr>
      0.01 (Driver_init E js g0 p0 c0 cfg0)))) = 0
   \<and> gyro (carstate (fst (OnControlFrame E
      \<lparr>js_events = [], imu_accel = (1, 0, 0), imu_gyro = (0, 0, - 0.5), wheel_motion = None\<rparr>
      0.01 (Driver_init E js g0 p0 c0 cfg0)))) = (0, 0, - 0.5)
   \<and> 0.05 * fabsf (1 / (- 0.5)) = (0.1 :: real)"
  by (simp add: OnControlFrame_carstate UpdateFromSensors_carstate estimate_fallback_guard
        after_input_def Driver_init_def CarState_init_def SetHome_eq Let_def fabsf_def
        float_rnd_0 double_rnd_0 float_rnd_minus float_rnd_half)

text \<open>
  C3 (as amended).  On a control tick on which \<^verbatim>\<open>GetControl\<close> returns false, no
  \<^verbatim>\<open>SetControls\<close> call is made, and the stored 8-bit throttle and steering become the
  truncations of the \<^verbatim>\<open>float\<close> products \<^verbatim>\<open>127*u_a\<close> and \<^verbatim>\<open>127*u_s\<close>, for the values \<open>u_a\<close>
  and \<open>u_s\<close> that the call leaves in the two command variables.  When the call leaves a
  variable as it was passed in (the stored command divided by \<^verbatim>\<open>127.0\<close>, as a \<^verbatim>\<open>float\<close>),
  the stored command after the tick is what it was before the tick.
\<close>

theorem control_declined_holds_commands:
  assumes "call_GetControl E dt (UpdateFromSensors E inp dt d) = (False, u_a, u_s, c')"
  shows "car_controls (fst (OnControlFrame E inp dt d)) = car_controls d
       \<and> throttle (carstate (fst (OnControlFrame E inp dt d))) = float_to_int8 (float_rnd (127 * u_a))
       \<and> steering (carstate (fst (OnControlFrame E inp dt d))) = float_to_int8 (float_rnd (127 * u_s))
       \<and> (u_a = float_rnd (double_rnd (int8_to_float (throttle (carstate d)) / 127.0)) \<longrightarrow>
            throttle (carstate (fst (OnControlFrame E inp dt d))) = throttle (carstate d))
       \<and> (u_s = float_rnd (double_rnd (int8_to_float (steering (carstate d)) / 127.0)) \<longrightarrow>
            steering (carstate (fst (OnControlFrame E inp dt d))) = steering (carstate d))"
proof -
  have t: "throttle (carstate (fst (OnControlFrame E inp dt d)))
           = float_to_int8 (float_rnd (127 * u_a))"
    by (simp add: OnControlFrame_carstate assms)
  have s: "steering (carstate (fst (OnControlFrame E inp dt d)))
           = float_to_int8 (float_rnd (127 * u_s))"
    by (simp add: OnControlFrame_carstate assms)
  have c: "car_controls (fst (OnControlFrame E inp dt d)) = car_controls d"
    using OnControlFrame_car_controls [of E dt inp d]
    by (simp add: assms UpdateFromSensors_car_controls)
  have ht: "throttle (carstate (fst (OnControlFrame E inp dt d))) = throttle (carstate d)"
    if "u_a = float_rnd (double_rnd (int8_to_float (throttle (carstate d)) / 127.0))"
    unfolding t that by (rule float_int8_roundtrip)
  have hs: "steering (carstate (fst (OnControlFrame E inp dt d))) = steering (carstate d)"
    if "u_s = float_rnd (double_rnd (int8_to_float (steering (carstate d)) / 127.0))"
    unfolding s that by (rule float_int8_roundtrip)
  from t s c ht hs show ?thesis by blast
qed

theorem control_declined_holds_commands_witness:
  "\<not> fst (call_GetControl sample_env 0.01 (UpdateFromSensors sample_env sample_tick 0.01 held_driver))
   \<and> throttle (carstate held_driver) = - 100 \<and> steering (carstate held_driver) = 37
   \<and> throttle (carstate (fst (OnControlFrame sample_env sample_tick 0.01 held_driver))) = - 100
   \<and> steering (carstate (fst (OnControlFrame sample_env sample_tick 0.01 held_driver))) = 37
   \<and> car_controls (fst (OnControlFrame sample_env sample_tick 0.01 held_driver)) = []"
proof -
  have a: "autodrive (UpdateFromSensors sample_env sample_tick 0.01 held_driver)"
    by (simp add: UpdateFromSensors_def Let_def sample_tick_def held_driver_def)
  have g: "call_GetControl sample_env 0.01 (UpdateFromSensors sample_env sample_tick 0.01 held_driver)
        = (False, float_rnd (double_rnd (int8_to_float (throttle (carstate held_driver)) / 127.0)),
           float_rnd (double_rnd (int8_to_float (steering (carstate held_driver)) / 127.0)),
           controller (UpdateFromSensors sample_env sample_tick 0.01 held_driver))"
    using a by (simp add: call_GetControl_def sample_env_def UpdateFromSensors_commands Let_def)
  have h: "throttle (carstate held_driver) = - 100" "steering (carstate held_driver) = 37"
    "car_controls held_driver = []"
    by (simp_all add: held_driver_def sample_driver_def Driver_init_def)
  from control_declined_holds_commands [OF g]
  have "car_controls (fst (OnControlFrame sample_env sample_tick 0.01 held_driver))
          = car_controls held_driver"
    and "throttle (carstate (fst (OnControlFrame sample_env sample_tick 0.01 held_driver)))
          = throttle (carstate held_driver)"
    and "steering (carstate (fst (OnControlFrame sample_env sample_tick 0.01 held_driver)))
          = steering (carstate held_driver)"
    by blast+
  then show ?thesis unfolding g h by simp
qed

text \<open>
  C3 as stated fails: the driver stores whatever the call leaves in the two command
  variables, whether it returns true or false.  A controller that writes \<open>0\<close> and \<open>0.5\<close>
  to them and returns false turns the stored commands \<open>(-100, 37)\<close> into \<open>(0, 63)\<close>,
  although no \<^verbatim>\<open>SetControls\<close> call is made.
\<close>

theorem control_declined_counterexample:
  "\<not> fst (call_GetControl overwriting_env 0.01
            (UpdateFromSensors overwriting_env sample_tick 0.01 held_driver))
   \<and> car_controls (fst (OnControlFrame overwriting_env sample_tick 0.01 held_driver)) = []
   \<and> throttle (carstate held_driver) = - 100 \<and> steering (carstate held_driver) = 37
   \<and> throttle (carstate (fst (OnControlFrame overwriting_env sample_tick 0.01 held_driver))) = 0
   \<and> steering (carstate (fst (OnControlFrame overwriting_env sample_tick 0.01 held_driver))) = 63"
proof -
  have g: "call_GetControl overwriting_env dt d = (False, 0, 0.5, controller d)"
    for dt and d :: "nat Driver"
    by (simp add: call_GetControl_def overwriting_env_def sample_env_def Let_def)
  have ng: "\<not> fst (call_GetControl overwriting_env 0.01
                   (UpdateFromSensors overwriting_env sample_tick 0.01 held_driver))"
    by (simp add: g)
  have h: "throttle (carstate held_driver) = - 100" "steering (carstate held_driver) = 37"
    "car_controls held_driver = []"
    by (simp_all add: held_driver_def sample_driver_def Driver_init_def)
  have r: "float_rnd (127 * 0) = 0" "float_rnd (127 * 0.5) = 127 / 2"
    by (simp add: float_rnd_0, simp add: rnd_eval)
  have t: "float_to_int8 0 = 0" "float_to_int8 (127 / 2) = 63"
    by (simp_all add: float_to_int8_def)
  have c: "car_controls (fst (OnControlFrame overwriting_env sample_tick 0.01 held_driver))
           = car_controls held_driver"
    using OnControlFrame_car_controls [OF ng] by (simp add: UpdateFromSensors_car_controls)
  have th: "throttle (carstate (fst (OnControlFrame overwriting_env sample_tick 0.01 held_driver)))
           = float_to_int8 (float_rnd (127 * 0))"
    and st: "steering (carstate (fst (OnControlFrame overwriting_env sample_tick 0.01 held_driver)))
           = float_to_int8 (float_rnd (127 * 0.5))"
    by (simp_all add: OnControlFrame_carstate g)
  show ?thesis unfolding th st r t c h g by simp
qed

text \<open>
  C6.  Over any sequence of fallback ticks (no wheel signal) whose acceleration reading is
  zero, starting from a stored wheel speed that is a \<^verbatim>\<open>float\<close> value (as the initial \<open>0\<close>
  and every value that a fallback tick stores are), the magnitude of the wheel speed never
  increases: not from one tick to the next, and no later value of the trace exceeds an
  earlier one.  Each tick stores the product of the speed and the factor
  \<^verbatim>\<open>0.95\<close>, computed in \<^verbatim>\<open>double\<close> and rounded to \<^verbatim>\<open>float\<close>; the correction adds nothing,
  whatever the yaw rate and \<open>dt\<close> are.  The rounding keeps the magnitude from decreasing
  at the smallest positive \<^verbatim>\<open>float\<close>, which stays what it is.
\<close>

theorem fallback_zero_accel_decays:
  assumes "\<forall>(inp, dt) \<in> set ts. wheel_motion inp = None \<and> imu_accel inp = (0, 0, 0)"
    and "float_rnd (wheel_v (carstate d)) = wheel_v (carstate d)"
  shows "sorted_wrt (\<lambda>a b. \<bar>b\<bar> \<le> \<bar>a\<bar>) (wheel_v_trace E ts d)
       \<and> (\<forall>i < length ts. \<bar>wheel_v_trace E ts d ! Suc i\<bar> \<le> \<bar>wheel_v_trace E ts d ! i\<bar>)
       \<and> (\<forall>i < length ts. wheel_v_trace E ts d ! Suc i
              = float_rnd (double_rnd (double_rnd 0.95 * wheel_v_trace E ts d ! i)))"
proof -
  have main: "sorted_wrt (\<lambda>a b. \<bar>b\<bar> \<le> \<bar>a\<bar>) (wheel_v_trace E ts d)
       \<and> (\<forall>i < length ts. wheel_v_trace E ts d ! Suc i
              = float_rnd (double_rnd (double_rnd 0.95 * wheel_v_trace E ts d ! i)))"
    using assms
  proof (induction ts arbitrary: d)
    case Nil
    then show ?case by simp
  next
    case (Cons a ts)
    obtain inp dt where a: "a = (inp, dt)" by (cases a)
    let ?d = "fst (OnControlFrame E inp dt d)"
    from Cons.prems(1) a have h: "wheel_motion inp = None" "imu_accel inp = (0, 0, 0)" by auto
    have step: "wheel_v (carstate ?d)
                = float_rnd (double_rnd (double_rnd 0.95 * wheel_v (carstate d)))"
      by (rule zero_accel_step [OF h Cons.prems(2)])
    have fl: "float_rnd (wheel_v (carstate ?d)) = wheel_v (carstate ?d)"
      by (rule zero_accel_step_float [OF h Cons.prems(2)])
    have rest: "\<forall>(inp, dt) \<in> set ts. wheel_motion inp = None \<and> imu_accel inp = (0, 0, 0)"
      using Cons.prems(1) by simp
    have IH: "sorted_wrt (\<lambda>a b. \<bar>b\<bar> \<le> \<bar>a\<bar>) (wheel_v_trace E ts ?d)"
      "\<forall>i < length ts. wheel_v_trace E ts ?d ! Suc i
          = float_rnd (double_rnd (double_rnd 0.95 * wheel_v_trace E ts ?d ! i))"
      using Cons.IH [OF rest fl] by auto
    have bound: "\<forall>w \<in> set (wheel_v_trace E ts ?d). \<bar>w\<bar> \<le> \<bar>wheel_v (carstate d)\<bar>"
    proof
      fix w assume "w \<in> set (wheel_v_trace E ts ?d)"
      then have "\<bar>w\<bar> \<le> \<bar>wheel_v (carstate ?d)\<bar>" using trace_bounded [OF rest fl] by blast
      also have "\<dots> \<le> \<bar>wheel_v (carstate d)\<bar>"
        unfolding step by (rule decay_le [OF Cons.prems(2)])
      finally show "\<bar>w\<bar> \<le> \<bar>wheel_v (carstate d)\<bar>" .
    qed
    have nth0: "wheel_v_trace E ts ?d ! 0 = wheel_v (carstate ?d)"
      by (cases ts) auto
    have "\<forall>i < length (a # ts).
            wheel_v_trace E (a # ts) d ! Suc i
            = float_rnd (double_rnd (double_rnd 0.95 * wheel_v_trace E (a # ts) d ! i))"
    proof (intro allI impI)
      fix i assume i: "i < length (a # ts)"
      show "wheel_v_trace E (a # ts) d ! Suc i
            = float_rnd (double_rnd (double_rnd 0.95 * wheel_v_trace E (a # ts) d ! i))"
      proof (cases i)
        case 0
        then show ?thesis using a nth0 step by simp
      next
        case (Suc j)
        then show ?thesis using a IH(2) i by simp
      qed
    qed
    then show ?case using a IH(1) bound by simp
  qed
  have "\<bar>wheel_v_trace E ts d ! Suc i\<bar> \<le> \<bar>wheel_v_trace E ts d ! i\<bar>" if "i < length ts" for i
    using main that sorted_wrt_nth_less [of "\<lambda>a b. \<bar>b\<bar> \<le> \<bar>a\<bar>" "wheel_v_trace E ts d" i "Suc i"]
    by (simp add: trace_length)
  with main show ?thesis by blast
qed

theorem fallback_zero_accel_decays_witness:
  "sorted_wrt (\<lambda>a b. \<bar>b\<bar> \<le> \<bar>a\<bar>) (wheel_v_trace sample_env decay_ticks moving_driver)
   \<and> wheel_v_trace sample_env decay_ticks moving_driver
       = [2, 15938355 / 8388608, 15141437 / 8388608]
   \<and> wheel_v_trace sample_env decay_ticks tiny_driver = [1 / 2 ^ 149, 1 / 2 ^ 149, 1 / 2 ^ 149]"
proof -
  have h: "\<forall>(inp, dt) \<in> set decay_ticks. wheel_motion inp = None \<and> imu_accel inp = (0, 0, 0)"
    by (simp add: decay_ticks_def sample_tick_def)
  have l: "length decay_ticks = 2" by (simp add: decay_ticks_def)
  have l3: "length (wheel_v_trace sample_env decay_ticks d) = 3" for d
    by (simp add: trace_length l)
  have z: "wheel_v_trace sample_env decay_ticks moving_driver ! 0 = 2"
    by (simp add: decay_ticks_def moving_driver_def)
  have f: "float_rnd (wheel_v (carstate moving_driver)) = wheel_v (carstate moving_driver)"
    by (simp add: moving_driver_def rnd_eval)
  from fallback_zero_accel_decays [OF h f, of sample_env]
  have s: "sorted_wrt (\<lambda>a b. \<bar>b\<bar> \<le> \<bar>a\<bar>) (wheel_v_trace sample_env decay_ticks moving_driver)"
    and a: "\<forall>i < length decay_ticks.
              wheel_v_trace sample_env decay_ticks moving_driver ! Suc i
              = float_rnd (double_rnd (double_rnd 0.95
                  * wheel_v_trace sample_env decay_ticks moving_driver ! i))"
    by blast+
  have e1: "float_rnd (double_rnd (double_rnd 0.95 * 2)) = 15938355 / 8388608"
    by (simp add: rnd_eval)
  have e2: "float_rnd (double_rnd (double_rnd 0.95 * (15938355 / 8388608))) = 15141437 / 8388608"
    by (simp add: rnd_eval)
  have s0: "wheel_v_trace sample_env decay_ticks moving_driver ! Suc 0
            = float_rnd (double_rnd (double_rnd 0.95
                * wheel_v_trace sample_env decay_ticks moving_driver ! 0))"
    using a l by simp
  have s1: "wheel_v_trace sample_env decay_ticks moving_driver ! Suc (Suc 0)
            = float_rnd (double_rnd (double_rnd 0.95
                * wheel_v_trace sample_env decay_ticks moving_driver ! Suc 0))"
    using a l by simp
  have a0: "wheel_v_trace sample_env decay_ticks moving_driver ! Suc 0 = 15938355 / 8388608"
    unfolding s0 z e1 ..
  have a1: "wheel_v_trace sample_env decay_ticks moving_driver ! Suc (Suc 0) = 15141437 / 8388608"
    unfolding s1 a0 e2 ..
  have m: "wheel_v_trace sample_env decay_ticks moving_driver
           = [2, 15938355 / 8388608, 15141437 / 8388608]"
    using list3 [OF l3 [of moving_driver]] unfolding z a0 a1 .
  have tz: "wheel_v_trace sample_env decay_ticks tiny_driver ! 0 = 1 / 2 ^ 149"
    by (simp add: decay_ticks_def tiny_driver_def)
  have tf: "float_rnd (wheel_v (carstate tiny_driver)) = wheel_v (carstate tiny_driver)"
    using tiny_float by (simp add: tiny_driver_def)
  from fallback_zero_accel_decays [OF h tf, of sample_env]
  have ta: "\<forall>i < length decay_ticks.
              wheel_v_trace sample_env decay_ticks tiny_driver ! Suc i
              = float_rnd (double_rnd (double_rnd 0.95
                  * wheel_v_trace sample_env decay_ticks tiny_driver ! i))"
    by blast
  have u0: "wheel_v_trace sample_env decay_ticks tiny_driver ! Suc 0
            = float_rnd (double_rnd (double_rnd 0.95
                * wheel_v_trace sample_env decay_ticks tiny_driver ! 0))"
    using ta l by simp
  have u1: "wheel_v_trace sample_env decay_ticks tiny_driver ! Suc (Suc 0)
            = float_rnd (double_rnd (double_rnd 0.95
                * wheel_v_trace sample_env decay_ticks tiny_driver ! Suc 0))"
    using ta l by simp
  have t0: "wheel_v_trace sample_env decay_ticks tiny_driver ! Suc 0 = 1 / 2 ^ 149"
    unfolding u0 tz tiny_decay ..
  have t1: "wheel_v_trace sample_env decay_ticks tiny_driver ! Suc (Suc 0) = 1 / 2 ^ 149"
    unfolding u1 t0 tiny_decay ..
  have tm: "wheel_v_trace sample_env decay_ticks tiny_driver
            = [1 / 2 ^ 149, 1 / 2 ^ 149, 1 / 2 ^ 149]"
    using list3 [OF l3 [of tiny_driver]] unfolding tz t0 t1 .
  from s m tm show ?thesis by blast
qed

text \<open>
  C7.  The corrected gyro stored by a control tick is, component by component, the raw
  reading of that tick minus the bias the driver holds, as a \<^verbatim>\<open>float\<close> difference (the
  bias at the start of the tick when no input event is delivered); the filtered value
  \<^verbatim>\<open>gyro_last_\<close> does not enter.  After the home button has captured the filtered value
  \<open>b\<close> as the bias, a tick whose raw reading is \<open>b\<close> stores the corrected gyro \<open>(0, 0, 0)\<close>.
\<close>

theorem corrected_gyro_is_raw_minus_bias:
  "v3 (gyro (carstate (fst (OnControlFrame E inp dt d)))) 0
     = float_rnd (v3 (imu_gyro inp) 0 - v3 (gyro_bias (fst (OnControlFrame E inp dt d))) 0)
   \<and> v3 (gyro (carstate (fst (OnControlFrame E inp dt d)))) 1
     = float_rnd (v3 (imu_gyro inp) 1 - v3 (gyro_bias (fst (OnControlFrame E inp dt d))) 1)
   \<and> v3 (gyro (carstate (fst (OnControlFrame E inp dt d)))) 2
     = float_rnd (v3 (imu_gyro inp) 2 - v3 (gyro_bias (fst (OnControlFrame E inp dt d))) 2)
   \<and> (\<not> js_attached d \<or> js_events inp = [] \<longrightarrow>
        gyro (carstate (fst (OnControlFrame E inp dt d)))
          = (float_rnd (v3 (imu_gyro inp) 0 - v3 (gyro_bias d) 0),
             float_rnd (v3 (imu_gyro inp) 1 - v3 (gyro_bias d) 1),
             float_rnd (v3 (imu_gyro inp) 2 - v3 (gyro_bias d) 2)))
   \<and> (imu_gyro inp = gyro_last d \<longrightarrow>
        gyro_bias (OnButtonPress E (CHR ''H'') d) = gyro_last d
        \<and> gyro (carstate (fst (OnControlFrame E inp dt (OnButtonPress E (CHR ''H'') d))))
            = (0, 0, 0))"
proof -
  have g: "\<And>d. gyro (carstate (fst (OnControlFrame E inp dt d)))
             = v3_sub (imu_gyro inp) (gyro_bias (after_input E inp d))"
    by (simp add: OnControlFrame_carstate UpdateFromSensors_carstate estimate_fields)
  have 1: "v3 (gyro (carstate (fst (OnControlFrame E inp dt d)))) i
     = float_rnd (v3 (imu_gyro inp) i - v3 (gyro_bias (fst (OnControlFrame E inp dt d))) i)" for i
    by (simp add: g gyro_bias_OnControlFrame v3_sub_component)
  have 2: "gyro (carstate (fst (OnControlFrame E inp dt d)))
          = (float_rnd (v3 (imu_gyro inp) 0 - v3 (gyro_bias d) 0),
             float_rnd (v3 (imu_gyro inp) 1 - v3 (gyro_bias d) 1),
             float_rnd (v3 (imu_gyro inp) 2 - v3 (gyro_bias d) 2))"
    if "\<not> js_attached d \<or> js_events inp = []"
  proof -
    have "after_input E inp d = d" using that by (auto simp: after_input_def)
    then show ?thesis
      unfolding g by (cases "imu_gyro inp"; cases "gyro_bias d") simp
  qed
  have 3: "gyro (carstate (fst (OnControlFrame E inp dt (OnButtonPress E (CHR ''H'') d))))
            = (0, 0, 0)"
    if "imu_gyro inp = gyro_last d"
  proof -
    let ?d = "OnButtonPress E (CHR ''H'') d"
    have "gyro_bias ?d = gyro_last ?d" by (simp add: press_H)
    from after_input_bias_kept [OF this]
    have "gyro_bias (after_input E inp ?d) = gyro_last d" by (simp add: press_H)
    then show ?thesis by (simp add: g that v3_sub_self)
  qed
  show ?thesis using 1 [of 0] 1 [of 1] 1 [of 2] 2 3 press_H(1) by blast
qed

theorem corrected_gyro_is_raw_minus_bias_witness:
  "js_events offset_tick = []
   \<and> imu_gyro offset_tick = (0.5, 0.25, - 1) \<and> gyro_bias offset_driver = (0.25, - 0.5, 1)
   \<and> gyro_last offset_driver = (7, 8, 9)
   \<and> gyro (carstate (fst (OnControlFrame sample_env offset_tick 0.01 offset_driver)))
       = (0.25, 0.75, - 2)
   \<and> imu_gyro biased_tick = gyro_last biased_driver
   \<and> gyro_bias (OnButtonPress sample_env (CHR ''H'') biased_driver) = (0.01, - 0.02, 0.03)
   \<and> gyro (carstate (fst (OnControlFrame sample_env biased_tick 0.01
        (OnButtonPress sample_env (CHR ''H'') biased_driver)))) = (0, 0, 0)"
proof -
  have h: "imu_gyro biased_tick = gyro_last biased_driver"
    by (simp add: biased_tick_def biased_driver_def sample_tick_def)
  have b: "gyro_last biased_driver = (0.01, - 0.02, 0.03)" by (simp add: biased_driver_def)
  have o: "js_events offset_tick = []" "imu_gyro offset_tick = (0.5, 0.25, - 1)"
    "gyro_bias offset_driver = (0.25, - 0.5, 1)" "gyro_last offset_driver = (7, 8, 9)"
    by (simp_all add: offset_tick_def offset_driver_def sample_tick_def)
  have r: "float_rnd (0.5 - 0.25) = 0.25" "float_rnd (0.25 - (- 0.5)) = 0.75"
    "float_rnd (- 1 - 1) = - 2"
    by (simp_all add: rnd_eval)
  from corrected_gyro_is_raw_minus_bias [of sample_env biased_tick "0.01" biased_driver] h
  have 1: "gyro_bias (OnButtonPress sample_env (CHR ''H'') biased_driver) = gyro_last biased_driver"
    and 2: "gyro (carstate (fst (OnControlFrame sample_env biased_tick 0.01
        (OnButtonPress sample_env (CHR ''H'') biased_driver)))) = (0, 0, 0)"
    by blast+
  from corrected_gyro_is_raw_minus_bias [of sample_env offset_tick "0.01" offset_driver] o(1)
  have "gyro (carstate (fst (OnControlFrame sample_env offset_tick 0.01 offset_driver)))
          = (float_rnd (v3 (imu_gyro offset_tick) 0 - v3 (gyro_bias offset_driver) 0),
             float_rnd (v3 (imu_gyro offset_tick) 1 - v3 (gyro_bias offset_driver) 1),
             float_rnd (v3 (imu_gyro offset_tick) 2 - v3 (gyro_bias offset_driver) 2))"
    by blast
  then have 3: "gyro (carstate (fst (OnControlFrame sample_env offset_tick 0.01 offset_driver)))
          = (0.25, 0.75, - 2)"
    unfolding o(2,3) v3.simps using r by simp
  from h o 1 2 3 show ?thesis unfolding b by blast
qed

text \<open>
  C9.  When the destination cannot be opened (\<^verbatim>\<open>open\<close>, or \<^verbatim>\<open>fileno(stdout)\<close> for the
  name \<^verbatim>\<open>-\<close>, gives \<open>-1\<close>), \<^verbatim>\<open>StartRecording\<close> returns false, \<^verbatim>\<open>IsRecording()\<close> is false
  afterwards and nothing is written.  When it opens, \<^verbatim>\<open>StartRecording\<close> returns true,
  \<^verbatim>\<open>IsRecording()\<close> is true, and exactly one \<^verbatim>\<open>write\<close> has been issued: the serialized
  configuration, to the new descriptor.
\<close>

theorem StartRecording_outcome:
  "(open_destination E fname = - 1 \<longrightarrow>
      \<not> fst (StartRecording E fname fskip d)
      \<and> \<not> IsRecording (snd (StartRecording E fname fskip d))
      \<and> fd_writes (snd (StartRecording E fname fskip d)) = fd_writes d)
   \<and> (open_destination E fname \<noteq> - 1 \<longrightarrow>
      fst (StartRecording E fname fskip d)
      \<and> IsRecording (snd (StartRecording E fname fskip d))
      \<and> output_fd (snd (StartRecording E fname fskip d)) = open_destination E fname
      \<and> fd_writes (snd (StartRecording E fname fskip d))
          = fd_writes d @ [(open_destination E fname,
                            config_Serialize E (config d) (config_SerializedSize E (config d)),
                            config_SerializedSize E (config d))])"
  by (simp add: StartRecording_def IsRecording_def Let_def)

theorem StartRecording_outcome_witness:
  "open_destination sample_env ''/nonexistent/run.rec'' = - 1
   \<and> \<not> fst (StartRecording sample_env ''/nonexistent/run.rec'' 0 sample_driver)
   \<and> \<not> IsRecording (snd (StartRecording sample_env ''/nonexistent/run.rec'' 0 sample_driver))
   \<and> fd_writes (snd (StartRecording sample_env ''/nonexistent/run.rec'' 0 sample_driver)) = []
   \<and> open_destination sample_env ''session.rec'' = 3
   \<and> fst (StartRecording sample_env ''session.rec'' 0 sample_driver)
   \<and> IsRecording (snd (StartRecording sample_env ''session.rec'' 0 sample_driver))
   \<and> fd_writes (snd (StartRecording sample_env ''session.rec'' 0 sample_driver))
       = [(3, ascii ''cfg1'' @ le32 12 @ le16 100 @ le16 250, 12)]"
proof -
  have bad: "open_destination sample_env ''/nonexistent/run.rec'' = - 1"
    by (simp add: open_destination_def sample_env_def)
  have good: "open_destination sample_env ''session.rec'' = 3"
    by (simp add: open_destination_def sample_env_def)
  have w: "fd_writes sample_driver = []" "config sample_driver = [100, 250]"
    by (simp_all add: sample_driver_def Driver_init_def sample_env_def)
  have c: "config_SerializedSize sample_env [100, 250] = 12"
    "config_Serialize sample_env [100, 250] 12 = ascii ''cfg1'' @ le32 12 @ le16 100 @ le16 250"
    by (simp_all add: sample_env_def)
  from StartRecording_outcome [of sample_env "''/nonexistent/run.rec''" 0 sample_driver]
       StartRecording_outcome [of sample_env "''session.rec''" 0 sample_driver]
       bad good w c
  show ?thesis by simp
qed

text \<open>
  C2 (as amended).  For every vehicle state, negative throttle and steering included, and
  every destination of at least 42 bytes, \<^verbatim>\<open>Serialize\<close> writes a record that begins with
  the tag \<^verbatim>\<open>CSt1\<close> and the little-endian length 42, followed by the fields in a fixed
  order, and returns \<^verbatim>\<open>SerializedSize()\<close>, the constant 42.  Reading the record back as
  a chunk recovers, byte for byte, the 10 serialized values: throttle, steering, the three
  components of accel and of gyro, wheel_dist and wheel_v.  The pose is not in the record.
\<close>

theorem Serialize_roundtrip:
  assumes "42 \<le> length buf"
  shows "Serialize fb s buf = Some (CarState_record fb s @ drop 42 buf, SerializedSize)
       \<and> SerializedSize = 42
       \<and> length (CarState_record fb s) = 42
       \<and> take 4 (CarState_record fb s) = ascii ''CSt1''
       \<and> rd32 (take 4 (drop 4 (CarState_record fb s))) = 42
       \<and> drop 8 (CarState_record fb s) = concat (CarState_fields fb s)
       \<and> parse_CarState (CarState_record fb s @ drop 42 buf) = Some (CarState_fields fb s)
       \<and> length (CarState_fields fb s) = 10"
proof -
  have "rd32 (take 4 (drop 4 (CarState_record fb s))) = rd32 (le32 42)"
    by (simp add: CarState_record_def ascii_def le32_length)
  then have "rd32 (take 4 (drop 4 (CarState_record fb s))) = 42"
    by (simp only: rd32_le32)
  moreover have "take 4 (CarState_record fb s) = ascii ''CSt1''"
    "drop 8 (CarState_record fb s) = concat (CarState_fields fb s)"
    by (simp_all add: CarState_record_def ascii_length le32_length)
  moreover have "length (CarState_fields fb s) = 10"
    by (simp add: CarState_fields_def)
  ultimately show ?thesis
    using Serialize_eq [OF assms, of fb s] parse_CarState_record [of fb s "drop 42 buf"]
    by (simp add: SerializedSize_def CarState_record_length)
qed

theorem Serialize_roundtrip_witness:
  "Serialize sample_float_bits neg_carstate (replicate 44 238)
     = Some ([67, 83, 116, 49, 42, 0, 0, 0, 156, 219, 0, 0, 128, 63, 0, 0, 0, 0, 0, 0, 0, 64,
              0, 0, 0, 0, 0, 0, 0, 0, 0, 0, 0, 191, 0, 0, 0, 0, 0, 0, 128, 63, 238, 238], 42)
   \<and> parse_CarState [67, 83, 116, 49, 42, 0, 0, 0, 156, 219, 0, 0, 128, 63, 0, 0, 0, 0, 0, 0, 0, 64,
              0, 0, 0, 0, 0, 0, 0, 0, 0, 0, 0, 191, 0, 0, 0, 0, 0, 0, 128, 63, 238, 238]
     = Some [[156], [219], [0, 0, 128, 63], [0, 0, 0, 0], [0, 0, 0, 64], [0, 0, 0, 0],
             [0, 0, 0, 0], [0, 0, 0, 191], [0, 0, 0, 0], [0, 0, 128, 63]]
   \<and> throttle neg_carstate = - 100 \<and> steering neg_carstate = - 37"
proof -
  have l: "42 \<le> length (replicate 44 (238 :: uint8_t))" by simp
  have d: "drop 42 (replicate 44 (238 :: uint8_t)) = [238, 238]"
    by (simp add: numeral_eq_Suc)
  from Serialize_roundtrip [OF l, of sample_float_bits neg_carstate]
  show ?thesis
    unfolding d neg_record neg_fields by (simp add: neg_carstate_def)
qed

text \<open>
  C2 as stated fails: the record read back has 10 fields, not 18, and two vehicle states
  that differ in the pose give the same record.
\<close>

theorem Serialize_fields_counterexample:
  "map_option length (parse_CarState
      (fst (the (Serialize sample_float_bits neg_carstate (replicate 42 0))))) = Some 10
   \<and> map_option length (parse_CarState
      (fst (the (Serialize sample_float_bits neg_carstate (replicate 42 0))))) \<noteq> Some 18
   \<and> neg_carstate\<lparr>ceiltrack_pos := (1, 2, 3)\<rparr> \<noteq> neg_carstate
   \<and> Serialize sample_float_bits (neg_carstate\<lparr>ceiltrack_pos := (1, 2, 3)\<rparr>) (replicate 42 0)
       = Serialize sample_float_bits neg_carstate (replicate 42 0)"
proof -
  have l: "42 \<le> length (replicate 42 (0 :: uint8_t))" by simp
  have s: "Serialize sample_float_bits neg_carstate (replicate 42 0)
           = Some (CarState_record sample_float_bits neg_carstate @ [], 42)"
    using Serialize_eq [OF l, of sample_float_bits neg_carstate] by simp
  have s': "Serialize sample_float_bits (neg_carstate\<lparr>ceiltrack_pos := (1, 2, 3)\<rparr>) (replicate 42 0)
           = Some (CarState_record sample_float_bits (neg_carstate\<lparr>ceiltrack_pos := (1, 2, 3)\<rparr>) @ [], 42)"
    using Serialize_eq [OF l, of sample_float_bits "neg_carstate\<lparr>ceiltrack_pos := (1, 2, 3)\<rparr>"] by simp
  have e: "CarState_record sample_float_bits (neg_carstate\<lparr>ceiltrack_pos := (1, 2, 3)\<rparr>)
           = CarState_record sample_float_bits neg_carstate"
    by (simp add: CarState_record_def CarState_fields_def)
  have p: "parse_CarState (CarState_record sample_float_bits neg_carstate @ [])
           = Some (CarState_fields sample_float_bits neg_carstate)"
    by (rule parse_CarState_record)
  have n: "neg_carstate\<lparr>ceiltrack_pos := (1, 2, 3)\<rparr> \<noteq> neg_carstate"
  proof
    assume "neg_carstate\<lparr>ceiltrack_pos := (1, 2, 3)\<rparr> = neg_carstate"
    then have "ceiltrack_pos (neg_carstate\<lparr>ceiltrack_pos := (1, 2, 3)\<rparr>) = ceiltrack_pos neg_carstate"
      by simp
    then show False by (simp add: neg_carstate_def CEILHOME_X_def)
  qed
  show ?thesis
    unfolding s s' e using p n by (simp add: CarState_fields_def)
qed

text \<open>
  C5.  When the controller's \<^verbatim>\<open>Serialize\<close> writes one chunk of exactly \<^verbatim>\<open>SerializedSize()\<close>
  bytes and the frame is shorter than \<open>2^31\<close> bytes (so that the sizes handed to the two
  \<^verbatim>\<open>Serialize\<close> calls are not negative), \<^verbatim>\<open>QueueRecordingData\<close> queues, for the open
  descriptor, one buffer: a chunk with tag \<^verbatim>\<open>CYCF\<close> whose little-endian length counts the
  whole frame, header included, and whose payload is the 8-byte time stamp (seconds,
  microseconds) followed by three chunks that are read one after the other and leave
  nothing over: the \<^verbatim>\<open>CSt1\<close> vehicle-state chunk, the controller's chunk, and a \<^verbatim>\<open>Y420\<close>
  chunk of length field \<open>length buf + 10\<close> that holds the 2-byte width 640 and then the
  camera bytes.
\<close>

theorem recording_frame_layout:
  assumes c: "int (length (ctl_record E buf d)) = ctl_SerializedSize E (controller d)"
    and ck: "read_chunk (ctl_record E buf d) = Some (ctag, cpayload, [])"
    and sz: "68 + length (ctl_record E buf d) + length buf < 2 ^ 31"
  shows "QueueRecordingData E t buf d
           = Some (d\<lparr>flush_entries := flush_entries d @
                [(output_fd d, Some (CYCF_frame E t buf d), int (length (CYCF_frame E t buf d)))]\<rparr>)
       \<and> read_chunk (CYCF_frame E t buf d)
           = Some (ascii ''CYCF'',
                   le32 (word_of_int (tv_sec t)) @ le32 (word_of_int (tv_usec t))
                   @ CarState_record (float_bits E) (carstate d) @ ctl_record E buf d
                   @ Y420_chunk buf, [])
       \<and> unat (rd32 (take 4 (drop 4 (CYCF_frame E t buf d)))) = length (CYCF_frame E t buf d)
       \<and> read_chunk (CarState_record (float_bits E) (carstate d) @ ctl_record E buf d
                      @ Y420_chunk buf)
           = Some (ascii ''CSt1'', concat (CarState_fields (float_bits E) (carstate d)),
                   ctl_record E buf d @ Y420_chunk buf)
       \<and> parse_CarState (CarState_record (float_bits E) (carstate d) @ ctl_record E buf d
                          @ Y420_chunk buf)
           = Some (CarState_fields (float_bits E) (carstate d))
       \<and> read_chunk (ctl_record E buf d @ Y420_chunk buf) = Some (ctag, cpayload, Y420_chunk buf)
       \<and> read_chunk (Y420_chunk buf) = Some (ascii ''Y420'', le16 640 @ buf, [])
       \<and> unat (rd32 (take 4 (drop 4 (Y420_chunk buf)))) = length buf + 10
       \<and> rd16 (take 2 (drop 8 (Y420_chunk buf))) = 640"
proof -
  let ?p = "le32 (word_of_int (tv_sec t)) @ le32 (word_of_int (tv_usec t))
        @ CarState_record (float_bits E) (carstate d) @ ctl_record E buf d @ Y420_chunk buf"
  have sz32: "68 + length (ctl_record E buf d) + length buf < 2 ^ 32"
    using sz by simp
  have q: "QueueRecordingData E t buf d
           = Some (d\<lparr>flush_entries := flush_entries d @
                [(output_fd d, Some (CYCF_frame E t buf d), int (length (CYCF_frame E t buf d)))]\<rparr>)"
    using c sz by (rule QueueRecordingData_eq)
  have pl: "length ?p = 60 + length (ctl_record E buf d) + length buf"
    by (rule CYCF_payload_length)
  have "read_chunk (ascii ''CYCF'' @ le32 (of_nat (8 + length ?p)) @ ?p @ [])
        = Some (ascii ''CYCF'', ?p, [])"
    by (rule read_chunk_append) (use sz32 in \<open>simp_all only: pl ascii_length\<close>, simp_all)
  then have r1: "read_chunk (CYCF_frame E t buf d) = Some (ascii ''CYCF'', ?p, [])"
    unfolding pl CYCF_frame_eq [symmetric] .
  have fl: "length (CYCF_frame E t buf d) = 68 + length (ctl_record E buf d) + length buf"
    unfolding CYCF_frame_eq using pl by (simp add: ascii_length le32_length)
  have "take 4 (drop 4 (CYCF_frame E t buf d))
        = le32 (of_nat (8 + (60 + length (ctl_record E buf d) + length buf)))"
    unfolding CYCF_frame_eq by (simp add: ascii_length le32_length)
  then have "unat (rd32 (take 4 (drop 4 (CYCF_frame E t buf d))))
        = 8 + (60 + length (ctl_record E buf d) + length buf)"
    using sz32 by (simp only: rd32_le32 unat_of_nat) simp
  then have r2: "unat (rd32 (take 4 (drop 4 (CYCF_frame E t buf d)))) = length (CYCF_frame E t buf d)"
    using fl by simp
  have l: "length (concat (CarState_fields (float_bits E) (carstate d))) = 34"
    by (simp add: CarState_fields_def le32_length)
  have "read_chunk (ascii ''CSt1''
          @ le32 (of_nat (8 + length (concat (CarState_fields (float_bits E) (carstate d)))))
          @ concat (CarState_fields (float_bits E) (carstate d))
          @ (ctl_record E buf d @ Y420_chunk buf))
        = Some (ascii ''CSt1'', concat (CarState_fields (float_bits E) (carstate d)),
                ctl_record E buf d @ Y420_chunk buf)"
    by (rule read_chunk_append) (simp_all add: ascii_def l)
  then have r3: "read_chunk (CarState_record (float_bits E) (carstate d) @ ctl_record E buf d
                      @ Y420_chunk buf)
           = Some (ascii ''CSt1'', concat (CarState_fields (float_bits E) (carstate d)),
                   ctl_record E buf d @ Y420_chunk buf)"
    by (simp add: CarState_record_def l)
  have r4: "parse_CarState (CarState_record (float_bits E) (carstate d) @ ctl_record E buf d
                          @ Y420_chunk buf)
           = Some (CarState_fields (float_bits E) (carstate d))"
    by (rule parse_CarState_record)
  have r5: "read_chunk (ctl_record E buf d @ Y420_chunk buf) = Some (ctag, cpayload, Y420_chunk buf)"
    using ck by (rule read_chunk_whole)
  have "read_chunk (ascii ''Y420'' @ le32 (of_nat (8 + length (le16 640 @ buf))) @ (le16 640 @ buf) @ [])
        = Some (ascii ''Y420'', le16 640 @ buf, [])"
    by (rule read_chunk_append) (use sz32 in \<open>simp_all add: ascii_length le16_length\<close>)
  then have r6: "read_chunk (Y420_chunk buf) = Some (ascii ''Y420'', le16 640 @ buf, [])"
    unfolding Y420_chunk_eq [symmetric] .
  have "take 4 (drop 4 (Y420_chunk buf)) = le32 (of_nat (length buf + 10))"
    by (simp add: Y420_chunk_def ascii_length le32_length)
  then have r7: "unat (rd32 (take 4 (drop 4 (Y420_chunk buf)))) = length buf + 10"
    using sz32 by (simp only: rd32_le32 unat_of_nat) simp
  have "take 2 (drop 8 (Y420_chunk buf)) = le16 640"
    by (simp add: Y420_chunk_def ascii_length le32_length le16_length)
  then have r8: "rd16 (take 2 (drop 8 (Y420_chunk buf))) = 640"
    by (simp only: rd16_le16)
  from q r1 r2 r3 r4 r5 r6 r7 r8 show ?thesis by blast
qed

theorem recording_frame_layout_witness:
  "QueueRecordingData sample_env sample_time [1, 2, 3] rec_driver
     = Some (rec_driver\<lparr>flush_entries :=
        [(3, Some [67, 89, 67, 70, 79, 0, 0, 0, 0, 16, 94, 95, 144, 208, 3, 0,
            67, 83, 116, 49, 42, 0, 0, 0, 0, 0, 0, 0, 0, 0, 0, 0, 0, 0, 0, 0, 0, 0, 0, 0, 0, 0,
            0, 0, 0, 0, 0, 0, 0, 0, 0, 0, 0, 0, 0, 0, 0, 0,
            99, 116, 108, 49, 8, 0, 0, 0,
            89, 52, 50, 48, 13, 0, 0, 0, 128, 2, 1, 2, 3], 79)]\<rparr>)
   \<and> read_chunk (ascii ''ctl1'' @ le32 8 @ Y420_chunk [1, 2, 3])
       = Some (ascii ''ctl1'', [], Y420_chunk [1, 2, 3])
   \<and> read_chunk (Y420_chunk [1, 2, 3]) = Some (ascii ''Y420'', le16 640 @ [1, 2, 3], [])
   \<and> unat (rd32 (take 4 (drop 4 (Y420_chunk [1, 2, 3])))) = 13"
proof -
  have c: "int (length (ctl_record sample_env [1, 2, 3] rec_driver))
           = ctl_SerializedSize sample_env (controller rec_driver)"
    by (simp add: sample_ctl_record ascii_length le32_length) (simp add: sample_env_def)
  have "read_chunk (ascii ''ctl1'' @ le32 (of_nat (8 + length ([] :: uint8_t list))) @ [] @ [])
        = Some (ascii ''ctl1'', [], [])"
    by (rule read_chunk_append) (simp_all add: ascii_length)
  then have ck: "read_chunk (ctl_record sample_env [1, 2, 3] rec_driver)
                 = Some (ascii ''ctl1'', [], [])"
    by (simp add: sample_ctl_record)
  have sz: "68 + length (ctl_record sample_env [1, 2, 3] rec_driver) + length [1, 2, 3 :: uint8_t]
            < 2 ^ 31"
    by (simp add: sample_ctl_record ascii_length le32_length)
  from recording_frame_layout [OF c ck sz, of sample_time]
  show ?thesis
    unfolding sample_frame sample_ctl_record by (simp add: rec_driver_fields)
qed

text \<open>
  C10.  In every state the core reaches from its initial state by camera frames, control
  ticks (whatever the wheel interface reports), input events, and starting or stopping
  the recording, \<^verbatim>\<open>wheel_dist\<close> is 0; the odometry field of every frame queued for
  recording, and of every record \<^verbatim>\<open>Serialize\<close> writes in that state, is the encoding
  of 0.
\<close>

theorem wheel_dist_stays_zero:
  assumes "run E ops (Driver_init E js g0 p0 c0 cfg0) = Some d"
  shows "wheel_dist (carstate d) = 0
       \<and> (\<forall>b \<in> set (queued_frames d). take 4 (drop (16 + 8 + 26) b) = le32 (float_bits E 0))
       \<and> (\<forall>buf. 42 \<le> length buf \<longrightarrow>
            (\<exists>r. Serialize (float_bits E) (carstate d) buf = Some (r, 42)
                  \<and> take 4 (drop (8 + 26) r) = le32 (float_bits E 0)))"
proof -
  from run_inv [OF init_inv assms] have i: "odometry_zero E d" .
  then have w: "wheel_dist (carstate d) = 0" by (simp add: odometry_zero_def)
  have "\<exists>r. Serialize (float_bits E) (carstate d) buf = Some (r, 42)
             \<and> take 4 (drop (8 + 26) r) = le32 (float_bits E 0)" if "42 \<le> length buf" for buf
  proof -
    have "take 4 (drop (8 + 26) (CarState_record (float_bits E) (carstate d) @ drop 42 buf))
          = take 4 (drop (8 + 26) (CarState_record (float_bits E) (carstate d)))"
      by (simp add: CarState_record_length)
    then show ?thesis
      using Serialize_eq [OF that, of "float_bits E" "carstate d"] record_wheel_dist [of "float_bits E" "carstate d"] w
      by simp
  qed
  with i show ?thesis by (simp add: odometry_zero_def)
qed

theorem wheel_dist_stays_zero_witness:
  "\<exists>d. run sample_env sample_ops sample_driver = Some d
      \<and> wheel_dist (carstate d) = 0
      \<and> (\<exists>r. Serialize sample_float_bits (carstate d) (replicate 42 0) = Some (r, 42)
              \<and> take 4 (drop (8 + 26) r) = [0, 0, 0, 0])"
proof -
  obtain d2 where d2: "OnCameraFrame sample_env sample_time [1, 2, 3]
      (snd (StartRecording sample_env ''session.rec'' 0 sample_driver)) = Some d2"
    using sample_OnCameraFrame [of "[1, 2, 3]"] by auto
  then obtain d where r: "run sample_env sample_ops sample_driver = Some d"
    by (simp add: sample_ops_def)
  have fb: "float_bits sample_env = sample_float_bits" by (simp add: sample_env_def)
  have z: "le32 (sample_float_bits 0) = [0, 0, 0, 0]"
    by (simp add: sample_float_bits_def le32_def)
  from wheel_dist_stays_zero [of sample_env sample_ops True "(0, 0, 0)" "(0, 0, 0)" 0 "[100, 250]" d]
       r [unfolded sample_driver_def]
  have "wheel_dist (carstate d) = 0"
    and "\<forall>buf. 42 \<le> length buf \<longrightarrow>
            (\<exists>r. Serialize sample_float_bits (carstate d) buf = Some (r, 42)
                  \<and> take 4 (drop (8 + 26) r) = [0, 0, 0, 0])"
    unfolding fb z by blast+
  then show ?thesis using r by fastforce
qed

end
